theory Spec2Isabelle
  imports Main "HOL-Library.AList" "HOL-Library.Signed_Division"
    "HOL-Library.Char_ord" "HOL-Library.List_Lexorder"
begin

section \<open>Data model (lib/types.ts)\<close>

text \<open>
  Minute values, columns and timestamps are JavaScript numbers that the program only ever
  builds from integers; they are modelled as \<open>int\<close>.  An optional property of a block is
  an \<open>option\<close>: nothing in the modelled code tells an absent property of a block from one
  that holds \<open>undefined\<close>.
\<close>

datatype Layer = Plan | Execute | Overlay

datatype BlockSource =
  Drag | Select | Manual | Week_plan | Fixed_schedule | Template_apply | Import | Voice

datatype PaintStyle = Solid | Diagonal | Cross | Line | Extension

datatype PlanResistance = Low | Medium | High | Uncertain

datatype MatchRule = TimeOverlap | AutoNearest | UserPinned

record BlockPlanRef =
  planBlockId :: string
  matchRule :: MatchRule
  matchScore :: "int option"

record BlockExtension =
  baseEndMin :: "int option"
  extendedByMin :: int

text \<open>
  The argument \<open>newBlock\<close> of \<open>detectOverlap\<close> and \<open>resolveOverlaps\<close> has the structural type
  \<open>{ startMin; endMin; layer }\<close>; a \<open>Block\<close> is passed where that type is expected.  The
  three fields are the parent record, \<open>Block\<close> extends it.  The field \<open>id\<close> is named \<open>bid\<close>.
\<close>

record TimeRange =
  startMin :: int
  endMin :: int
  layer :: Layer

record Block = TimeRange +
  bid :: string
  dateISO :: string
  activityId :: string
  title :: "string option"
  source :: BlockSource
  paintStyle :: "PaintStyle option"
  planRef :: "BlockPlanRef option"
  resistance :: "PlanResistance option"
  extension :: "BlockExtension option"
  score :: "int option"
  createdAt :: int
  updatedAt :: int

record Activity =
  aid :: string
  name :: string
  color :: string
  isSystem :: "bool option"

section \<open>Identifiers (lib/id.ts)\<close>

text \<open>
  \<open>generateId\<close> reads the clock and the random number generator and advances the module's
  counter.  The counter is state; the clock and the random digits are the environment's:
  \<open>env k\<close> is what \<open>Date.now()\<close> and \<open>Math.random().toString(36).slice(2, 6)\<close> return at
  the \<open>k\<close>-th call.
\<close>

record IdState =
  idCounter :: nat
  calls :: nat

type_synonym IdEnv = "nat \<Rightarrow> nat \<times> string"

definition digit36 :: "nat \<Rightarrow> char" where
  "digit36 d = ''0123456789abcdefghijklmnopqrstuvwxyz'' ! d"

fun toString36 :: "nat \<Rightarrow> string" where
  "toString36 n = (if n < 36 then [digit36 n] else toString36 (n div 36) @ [digit36 (n mod 36)])"

declare toString36.simps [simp del]

definition generateId :: "IdEnv \<Rightarrow> IdState \<Rightarrow> string \<times> IdState" where
  "generateId env st =
     (let c = (idCounter st + 1) mod 1000;
          t = fst (env (calls st));
          r = snd (env (calls st))
      in (toString36 t @ ''-'' @ toString36 c @ ''-'' @ r,
          st\<lparr>idCounter := c, calls := calls st + 1\<rparr>))"

text \<open>The state of the module after \<open>j\<close> further calls of \<open>generateId\<close>.\<close>

definition afterCalls :: "IdEnv \<Rightarrow> nat \<Rightarrow> IdState \<Rightarrow> IdState" where
  "afterCalls env j st = ((\<lambda>s. snd (generateId env s)) ^^ j) st"

text \<open>An environment for concrete runs: the clock reads 0 and the random digits are \<open>r\<close>.\<close>

definition fixedEnv :: IdEnv where
  "fixedEnv k = (0, ''r'')"

section \<open>The overlap engine (lib/blocks.ts)\<close>

definition detectOverlap ::
  "'a TimeRange_scheme \<Rightarrow> Block list \<Rightarrow> string option \<Rightarrow> Block list" where
  "detectOverlap newBlock existingBlocks excludeId =
     filter (\<lambda>b. layer b = layer newBlock \<and> Some (bid b) \<noteq> excludeId \<and>
                  startMin newBlock < endMin b \<and> endMin newBlock > startMin b)
       existingBlocks"

text \<open>
  The loop of \<open>resolveOverlaps\<close>; \<open>result\<close> is the array the source pushes to.  The last
  branch is the fall-through of the source's chain of \<open>if\<close>s: the block is not pushed.
\<close>

fun resolveOverlaps_loop ::
  "IdEnv \<Rightarrow> 'a TimeRange_scheme \<Rightarrow> string option \<Rightarrow> Block list \<Rightarrow> Block list \<Rightarrow> IdState
     \<Rightarrow> Block list \<times> IdState" where
  "resolveOverlaps_loop env newBlock excludeId [] result st = (result, st)"
| "resolveOverlaps_loop env newBlock excludeId (block # rest) result st =
     (if layer block \<noteq> layer newBlock \<or> Some (bid block) = excludeId then
        resolveOverlaps_loop env newBlock excludeId rest (result @ [block]) st
      else if startMin newBlock \<ge> endMin block \<or> endMin newBlock \<le> startMin block then
        resolveOverlaps_loop env newBlock excludeId rest (result @ [block]) st
      else if startMin newBlock \<le> startMin block \<and> endMin newBlock \<ge> endMin block then
        resolveOverlaps_loop env newBlock excludeId rest result st
      else if startMin newBlock > startMin block \<and> endMin newBlock \<ge> endMin block then
        resolveOverlaps_loop env newBlock excludeId rest
          (result @ [block\<lparr>endMin := startMin newBlock\<rparr>]) st
      else if startMin newBlock \<le> startMin block \<and> endMin newBlock < endMin block then
        resolveOverlaps_loop env newBlock excludeId rest
          (result @ [block\<lparr>startMin := endMin newBlock\<rparr>]) st
      else if startMin newBlock > startMin block \<and> endMin newBlock < endMin block then
        (let g = generateId env st in
         resolveOverlaps_loop env newBlock excludeId rest
           (result @ [block\<lparr>endMin := startMin newBlock\<rparr>,
                      block\<lparr>bid := fst g, startMin := endMin newBlock\<rparr>]) (snd g))
      else
        resolveOverlaps_loop env newBlock excludeId rest result st)"

definition resolveOverlaps ::
  "IdEnv \<Rightarrow> IdState \<Rightarrow> Block list \<Rightarrow> 'a TimeRange_scheme \<Rightarrow> string option
     \<Rightarrow> Block list \<times> IdState" where
  "resolveOverlaps env st blocks newBlock excludeId =
     resolveOverlaps_loop env newBlock excludeId blocks [] st"

text \<open>\<open>addBlock\<close> of lib/blocks.ts ("add a block, conflicts resolved automatically").\<close>

definition addBlock :: "IdEnv \<Rightarrow> IdState \<Rightarrow> Block list \<Rightarrow> Block \<Rightarrow> Block list \<times> IdState" where
  "addBlock env st blocks newBlock =
     (let resolved = resolveOverlaps env st blocks newBlock None
      in (fst resolved @ [newBlock], snd resolved))"

definition eraseRange ::
  "IdEnv \<Rightarrow> IdState \<Rightarrow> Block list \<Rightarrow> Layer \<Rightarrow> int \<Rightarrow> int \<Rightarrow> Block list \<times> IdState" where
  "eraseRange env st blocks l s e =
     resolveOverlaps env st blocks \<lparr>startMin = s, endMin = e, layer = l\<rparr> None"

definition getActivityColor :: "string \<Rightarrow> Activity list \<Rightarrow> string" where
  "getActivityColor a activities =
     (case find (\<lambda>x. aid x = a) activities of
        None \<Rightarrow> ''#888888''
      | Some x \<Rightarrow> (if color x = [] then ''#888888'' else color x))"


section \<open>Decimal text of a number\<close>

text \<open>\<open>Number.prototype.toString()\<close> and template-literal interpolation, on integers.\<close>

definition digit10 :: "nat \<Rightarrow> char" where
  "digit10 d = ''0123456789'' ! d"

fun showNat :: "nat \<Rightarrow> string" where
  "showNat n = (if n < 10 then [digit10 n] else showNat (n div 10) @ [digit10 (n mod 10)])"

declare showNat.simps [simp del]

definition showInt :: "int \<Rightarrow> string" where
  "showInt i = (if i < 0 then ''-'' @ showNat (nat (- i)) else showNat (nat i))"

section \<open>The planner store (stores/usePlannerStore)\<close>

text \<open>
  A JavaScript object used as a dictionary (\<open>Record<string, T>\<close>) is an association list
  with distinct keys, in insertion order: reading a key is \<open>map_of\<close>, assigning to a key is
  \<open>AList.update\<close> (in place when the key exists, at the end otherwise) and \<open>delete\<close> is
  \<open>AList.delete\<close>.
\<close>

datatype Tool =
  PAINT | NEW_EVENT | SELECT | INDICATOR | ERASE
  | Tool_execute | Tool_plan | Tool_new | Tool_select | Tool_indicator | Tool_erase | Tool_memo

type_synonym BlocksByDate = "(string \<times> Block list) list"

text \<open>
  The fields of the store that the block operations and the history read or write.  A
  history entry is the object \<open>{ blocks }\<close>; it is modelled by its only property.
  \<open>JSON.parse(JSON.stringify(state.blocks))\<close> is a deep copy, the identity on values.
\<close>

record PlannerState =
  tool :: Tool
  brush :: string
  activities :: "Activity list"
  blocks :: BlocksByDate
  past :: "BlocksByDate list"
  future :: "BlocksByDate list"

definition initialState :: PlannerState where
  "initialState =
     \<lparr>tool = PAINT, brush = ''work'', activities = [], blocks = [], past = [], future = []\<rparr>"

text \<open>
  The block operations of the store change \<open>state.blocks\<close> and nothing else.  Each is a
  function on the block collection, applied to the state by \<open>mutateBlocks\<close>.
\<close>

definition mutateBlocks :: "(BlocksByDate \<Rightarrow> BlocksByDate) \<Rightarrow> PlannerState \<Rightarrow> PlannerState" where
  "mutateBlocks f state = state\<lparr>blocks := f (blocks state)\<rparr>"

definition addBlockTo :: "Block \<Rightarrow> BlocksByDate \<Rightarrow> BlocksByDate" where
  "addBlockTo block m =
     (let d = dateISO block;
          bs = (case map_of m d of None \<Rightarrow> [] | Some xs \<Rightarrow> xs)
      in AList.update d (bs @ [block]) m)"

definition store_addBlock :: "Block \<Rightarrow> PlannerState \<Rightarrow> PlannerState" where
  "store_addBlock block = mutateBlocks (addBlockTo block)"

definition removeBlockFrom :: "string \<Rightarrow> string \<Rightarrow> BlocksByDate \<Rightarrow> BlocksByDate" where
  "removeBlockFrom d blockId m =
     (case map_of m d of
        None \<Rightarrow> m
      | Some xs \<Rightarrow> AList.update d (filter (\<lambda>b. bid b \<noteq> blockId) xs) m)"

definition store_removeBlock :: "string \<Rightarrow> string \<Rightarrow> PlannerState \<Rightarrow> PlannerState" where
  "store_removeBlock d blockId = mutateBlocks (removeBlockFrom d blockId)"

definition getBlocksForDate :: "PlannerState \<Rightarrow> string \<Rightarrow> Block list" where
  "getBlocksForDate state d = (case map_of (blocks state) d of None \<Rightarrow> [] | Some xs \<Rightarrow> xs)"

definition pushHistory :: "PlannerState \<Rightarrow> PlannerState" where
  "pushHistory state =
     (let p = past state @ [blocks state]
      in state\<lparr>past := (if length p > 50 then tl p else p), future := []\<rparr>)"

definition undo :: "PlannerState \<Rightarrow> PlannerState" where
  "undo state =
     (if past state = [] then state
      else state\<lparr>future := blocks state # future state,
                 blocks := last (past state),
                 past := butlast (past state)\<rparr>)"

definition redo :: "PlannerState \<Rightarrow> PlannerState" where
  "redo state =
     (case future state of
        [] \<Rightarrow> state
      | n # rest \<Rightarrow>
          state\<lparr>past := past state @ [blocks state], blocks := n, future := rest\<rparr>)"

definition canUndo :: "PlannerState \<Rightarrow> bool" where
  "canUndo state = (length (past state) > 0)"

definition canRedo :: "PlannerState \<Rightarrow> bool" where
  "canRedo state = (length (future state) > 0)"

section \<open>The drag handler (hooks/useDragHandler.ts)\<close>

record BlockParams =
  p_dateISO :: string
  p_startMin :: int
  p_endMin :: int
  p_activityId :: string
  p_layer :: Layer
  p_source :: "BlockSource option"
  p_resistance :: "PlanResistance option"
  p_score :: "int option"
  p_title :: "string option"

text \<open>\<open>createBlock\<close> of lib/blocks.ts; \<open>now\<close> is what \<open>Date.now()\<close> returns.\<close>

definition createBlock :: "IdEnv \<Rightarrow> IdState \<Rightarrow> int \<Rightarrow> BlockParams \<Rightarrow> Block \<times> IdState" where
  "createBlock env st now params =
     (let g = generateId env st
      in (\<lparr>startMin = p_startMin params, endMin = p_endMin params, layer = p_layer params,
           bid = fst g, dateISO = p_dateISO params, activityId = p_activityId params,
           title = p_title params,
           source = (case p_source params of None \<Rightarrow> Drag | Some x \<Rightarrow> x),
           paintStyle = None, planRef = None, resistance = p_resistance params,
           extension = None, score = p_score params, createdAt = now, updatedAt = now\<rparr>,
          snd g))"

record DragState =
  isDown :: bool
  startRow :: "int option"
  startCol :: "int option"
  lastRow :: "int option"
  lastCol :: "int option"
  activeCells :: "string set"

definition idleDrag :: DragState where
  "idleDrag = \<lparr>isDown = False, startRow = None, startCol = None, lastRow = None,
                lastCol = None, activeCells = {}\<rparr>"

text \<open>
  The hook's state together with the store and the id counter.  The long-press timer of
  the hook has an empty callback and is left out.
\<close>

record Planner =
  store :: PlannerState
  dragState :: DragState
  ids :: IdState

definition cellKey :: "int \<Rightarrow> int \<Rightarrow> string" where
  "cellKey r c = showInt r @ '':'' @ showInt c"

definition handlePointerDown :: "int \<Rightarrow> int \<Rightarrow> Planner \<Rightarrow> Planner" where
  "handlePointerDown r c p =
     p\<lparr>store := pushHistory (store p),
       dragState := \<lparr>isDown = True, startRow = Some r, startCol = Some c, lastRow = Some r,
                     lastCol = Some c, activeCells = {cellKey r c}\<rparr>\<rparr>"

text \<open>\<open>buttons\<close> is \<open>e.buttons\<close>; \<open>e.buttons & 1\<close> is non-zero when it is odd.  The time
  stamp of the new block is the clock as \<open>generateId\<close> is about to read it.\<close>

definition handlePointerEnter ::
  "IdEnv \<Rightarrow> string \<Rightarrow> int \<Rightarrow> int \<Rightarrow> nat \<Rightarrow> Planner \<Rightarrow> Planner" where
  "handlePointerEnter env d r c buttons p =
     (if \<not> isDown (dragState p) then p
      else if \<not> odd buttons then p\<lparr>dragState := (dragState p)\<lparr>isDown := False\<rparr>\<rparr>
      else if cellKey r c \<in> activeCells (dragState p) then p
      else
        (let ds = (dragState p)\<lparr>lastRow := Some r, lastCol := Some c,
                     activeCells := insert (cellKey r c) (activeCells (dragState p))\<rparr>
         in if tool (store p) = PAINT \<or> tool (store p) = Tool_execute then
              (let start = r * 60 + c * 10;
                   cb = createBlock env (ids p) (int (fst (env (calls (ids p)))))
                          \<lparr>p_dateISO = d, p_startMin = start, p_endMin = start + 10,
                           p_activityId = brush (store p), p_layer = Execute,
                           p_source = Some Drag, p_resistance = None, p_score = None,
                           p_title = None\<rparr>
               in p\<lparr>store := store_addBlock (fst cb) (store p), dragState := ds,
                     ids := snd cb\<rparr>)
            else p\<lparr>dragState := ds\<rparr>))"

definition handlePointerUp :: "Planner \<Rightarrow> Planner" where
  "handlePointerUp p = p\<lparr>dragState := idleDrag\<rparr>"

datatype PointerEvent = PointerDown int int | PointerEnter int int nat | PointerUp

fun dispatch :: "IdEnv \<Rightarrow> string \<Rightarrow> Planner \<Rightarrow> PointerEvent \<Rightarrow> Planner" where
  "dispatch env d p (PointerDown r c) = handlePointerDown r c p"
| "dispatch env d p (PointerEnter r c buttons) = handlePointerEnter env d r c buttons p"
| "dispatch env d p PointerUp = handlePointerUp p"

definition emptyPlanner :: Planner where
  "emptyPlanner = \<lparr>store = initialState, dragState = idleDrag,
                    ids = \<lparr>idCounter = 0, calls = 0\<rparr>\<rparr>"

text \<open>The invariant of the block store: no two stored blocks of one date and one layer
  have intersecting half-open ranges.\<close>

definition conflict :: "Block \<Rightarrow> Block \<Rightarrow> bool" where
  "conflict a b \<longleftrightarrow>
     dateISO a = dateISO b \<and> layer a = layer b \<and> startMin a < endMin b \<and> startMin b < endMin a"

fun noOverlap :: "Block list \<Rightarrow> bool" where
  "noOverlap [] = True"
| "noOverlap (b # bs) = ((\<forall>x \<in> set bs. \<not> conflict b x) \<and> noOverlap bs)"

definition storeNoOverlap :: "BlocksByDate \<Rightarrow> bool" where
  "storeNoOverlap m = (\<forall>e \<in> set m. noOverlap (snd e))"


text \<open>A block with the given id, date, span, activity and layer, as \<open>createBlock\<close> fills the
  other properties for a drag at time 0; used for concrete inputs below.\<close>

definition blockOf :: "string \<Rightarrow> string \<Rightarrow> int \<Rightarrow> int \<Rightarrow> string \<Rightarrow> Layer \<Rightarrow> Block" where
  "blockOf i d s e a l =
     \<lparr>startMin = s, endMin = e, layer = l, bid = i, dateISO = d, activityId = a,
      title = None, source = Drag, paintStyle = None, planRef = None, resistance = None,
      extension = None, score = None, createdAt = 0, updatedAt = 0\<rparr>"

text \<open>\<open>within r b\<close>: the block \<open>r\<close> is a part of the block \<open>b\<close> (same date and layer, its
  range inside the range of \<open>b\<close>).\<close>

definition within :: "Block \<Rightarrow> Block \<Rightarrow> bool" where
  "within r b \<longleftrightarrow>
     dateISO r = dateISO b \<and> layer r = layer b \<and> startMin b \<le> startMin r \<and> endMin r \<le> endMin b"

section \<open>The legacy day grid (App.old.tsx)\<close>

text \<open>
  A cell of the legacy grid is a JavaScript object whose own properties the code counts
  (\<open>Object.keys(updated).length\<close>), deletes and copies.  A property is therefore one of
  three things: absent, present holding \<open>undefined\<close> (as \<open>deepCloneGrid\<close> writes it), or
  present with a value.
\<close>

datatype 'a property = Absent | Undefined | Val 'a

record Indicator =
  label :: string
  timeText :: string

record MemoItem =
  memoId :: string
  memoDateISO :: string
  content :: string
  pinnedToBlockId :: "string option"
  pinnedToMin :: "int option"
  memoCreatedAt :: int
  memoUpdatedAt :: "int option"

record CellData =
  execute :: "string property"
  overlay :: "string property"
  indicator :: "Indicator property"
  memos :: "MemoItem list property"

type_synonym DayGrid = "(string \<times> CellData) list"

type_synonym DayStore = "(string \<times> DayGrid) list"

definition emptyCell :: CellData where
  "emptyCell = \<lparr>execute = Absent, overlay = Absent, indicator = Absent, memos = Absent\<rparr>"

text \<open>Reading a property: \<open>undefined\<close> when it is absent or holds \<open>undefined\<close>.\<close>

fun readProp :: "'a property \<Rightarrow> 'a option" where
  "readProp (Val x) = Some x"
| "readProp Absent = None"
| "readProp Undefined = None"

text \<open>Truthiness of an optional string: \<open>undefined\<close> and the empty string are falsy.\<close>

fun truthy :: "string option \<Rightarrow> bool" where
  "truthy None = False"
| "truthy (Some s) = (s \<noteq> [])"

text \<open>\<open>Object.keys(cell).length\<close>.\<close>

definition keyCount :: "CellData \<Rightarrow> nat" where
  "keyCount cell =
     (if execute cell = Absent then 0 else 1) + (if overlay cell = Absent then 0 else 1) +
     (if indicator cell = Absent then 0 else 1) + (if memos cell = Absent then 0 else 1)"

definition lookupCell :: "DayStore \<Rightarrow> string \<Rightarrow> string \<Rightarrow> CellData option" where
  "lookupCell st d cellId = (case map_of st d of None \<Rightarrow> None | Some g \<Rightarrow> map_of g cellId)"

text \<open>
  \<open>updateCell\<close>, \<open>paintCell\<close> and \<open>eraseCell\<close> close over the current date \<open>dateISO\<close> and
  update the day store through \<open>setDayStore\<close>; here they take the date and the store.
\<close>

definition updateCell ::
  "string \<Rightarrow> string \<Rightarrow> (CellData option \<Rightarrow> CellData option) \<Rightarrow> DayStore \<Rightarrow> DayStore" where
  "updateCell d cellId updater prev =
     (let existing = (case map_of prev d of None \<Rightarrow> [] | Some g \<Rightarrow> g);
          current = map_of existing cellId;
          next = (case updater current of
                    None \<Rightarrow> AList.delete cellId existing
                  | Some updated \<Rightarrow>
                      if keyCount updated = 0 then AList.delete cellId existing
                      else AList.update cellId updated existing)
      in AList.update d next prev)"

definition paintUpdater :: "string \<Rightarrow> CellData option \<Rightarrow> CellData option" where
  "paintUpdater b cell =
     (let next = (case cell of None \<Rightarrow> emptyCell | Some c \<Rightarrow> c)
      in Some (if \<not> truthy (readProp (execute next)) then next\<lparr>execute := Val b\<rparr>
               else if readProp (execute next) \<noteq> Some b then next\<lparr>overlay := Val b\<rparr>
               else next))"

definition paintCell :: "string \<Rightarrow> string \<Rightarrow> string \<Rightarrow> DayStore \<Rightarrow> DayStore" where
  "paintCell d cellId b = updateCell d cellId (paintUpdater b)"

definition eraseUpdater :: "CellData option \<Rightarrow> CellData option" where
  "eraseUpdater cell =
     (case cell of None \<Rightarrow> None | Some c \<Rightarrow> Some (c\<lparr>execute := Absent, overlay := Absent\<rparr>))"

definition eraseCell :: "string \<Rightarrow> string \<Rightarrow> DayStore \<Rightarrow> DayStore" where
  "eraseCell d cellId = updateCell d cellId eraseUpdater"

text \<open>
  \<open>eraseCell\<close> as section 4.2 of \<open>README.md\<close> documents it: a function on the cell that
  deletes \<open>execute\<close>, \<open>overlay\<close> and \<open>indicator\<close> and returns \<open>null\<close> when nothing is left.
\<close>

definition eraseCell_readme :: "CellData \<Rightarrow> CellData option" where
  "eraseCell_readme cell0 =
     (let cell = cell0\<lparr>execute := Absent, overlay := Absent, indicator := Absent\<rparr>
      in if \<not> truthy (readProp (execute cell)) \<and> \<not> truthy (readProp (overlay cell)) \<and>
            readProp (indicator cell) = None \<and>
            (case readProp (memos cell) of None \<Rightarrow> True | Some ms \<Rightarrow> length ms = 0)
         then None else Some cell)"

definition setIndicator :: "string \<Rightarrow> string \<Rightarrow> string \<Rightarrow> string \<Rightarrow> DayStore \<Rightarrow> DayStore" where
  "setIndicator d cellId l t =
     updateCell d cellId
       (\<lambda>cell. Some ((case cell of None \<Rightarrow> emptyCell | Some c \<Rightarrow> c)
                       \<lparr>indicator := Val \<lparr>label = l, timeText = t\<rparr>\<rparr>))"

definition deleteIndicator :: "string \<Rightarrow> string \<Rightarrow> DayStore \<Rightarrow> DayStore" where
  "deleteIndicator d cellId =
     updateCell d cellId
       (\<lambda>cell. case cell of None \<Rightarrow> None | Some c \<Rightarrow> Some (c\<lparr>indicator := Absent\<rparr>))"

definition pruneCell :: "CellData option \<Rightarrow> CellData option" where
  "pruneCell cell =
     (case cell of
        None \<Rightarrow> None
      | Some next \<Rightarrow>
          if \<not> truthy (readProp (execute next)) \<and> \<not> truthy (readProp (overlay next)) \<and>
             readProp (indicator next) = None \<and>
             (case readProp (memos next) of None \<Rightarrow> True | Some ms \<Rightarrow> length ms = 0)
          then None else Some next)"

definition deepCloneGrid :: "DayGrid \<Rightarrow> DayGrid" where
  "deepCloneGrid g =
     map (\<lambda>(k, v). (k, v\<lparr>indicator := (case readProp (indicator v) of
                                           None \<Rightarrow> Undefined | Some i \<Rightarrow> Val i),
                           memos := (case readProp (memos v) of
                                       None \<Rightarrow> Undefined | Some ms \<Rightarrow> Val ms)\<rparr>)) g"

section \<open>History of the planner store, as a run\<close>

text \<open>
  A mutation of the block collection is any function on it, applied by \<open>mutateBlocks\<close>: it
  leaves the history alone, as the store's \<open>addBlock\<close>, \<open>updateBlock\<close> and \<open>removeBlock\<close> do.
  \<open>snapshotThenMutate\<close> takes a snapshot immediately before each mutation of a list, in
  order.
\<close>

definition snapshotThenMutate ::
  "(BlocksByDate \<Rightarrow> BlocksByDate) list \<Rightarrow> PlannerState \<Rightarrow> PlannerState" where
  "snapshotThenMutate fs state = foldl (\<lambda>s f. mutateBlocks f (pushHistory s)) state fs"

section \<open>Cell ids and numbers (lib/id.ts, lib/time.ts, App.old.tsx)\<close>

text \<open>\<open>a % b\<close> of JavaScript truncates: the sign of the result is the sign of \<open>a\<close>.\<close>

definition jsRem :: "int \<Rightarrow> int \<Rightarrow> int" where
  "jsRem a b = a smod b"

text \<open>\<open>Math.ceil(x / 10)\<close> on an integer \<open>x\<close>.\<close>

definition ceilDiv10 :: "int \<Rightarrow> int" where
  "ceilDiv10 x = - ((- x) div 10)"

definition pad2 :: "int \<Rightarrow> string" where
  "pad2 n = (let s = showInt n in replicate (2 - length s) CHR ''0'' @ s)"

definition makeCellId :: "string \<Rightarrow> int \<Rightarrow> int \<Rightarrow> string" where
  "makeCellId d hour col = d @ ''|'' @ pad2 hour @ ''|'' @ showInt col"

text \<open>\<open>Math.round(min / 10) * 10\<close> on an integer: \<open>Math.round\<close> rounds a half upwards.\<close>

definition snap10 :: "int \<Rightarrow> int" where
  "snap10 m = ((m + 5) div 10) * 10"

section \<open>History, resize and fine resize of the legacy application (App.old.tsx)\<close>

record WeekCellData =
  planActivityId :: "string property"
  overlayActivityId :: "string property"

type_synonym WeekGrid = "(string \<times> WeekCellData) list"

record Snapshot =
  grid :: DayGrid
  week :: WeekGrid
  snapTool :: Tool
  snapBrush :: string

datatype GridLayer = GExecute | GOverlay

record SelectedSeg =
  selRow :: int
  selStartCol :: int
  selEndCol :: int
  selLayer :: GridLayer
  selActivityId :: string

record FineBounds =
  startMinute :: int
  endMinute :: int

datatype Side = SideStart | SideEnd

datatype FineMode = ModeMinute | ModeSnap

record ResizeState =
  rsPointerId :: int
  rsSide :: Side
  rsBase :: SelectedSeg

text \<open>The component state that history and resize read or write.\<close>

record LegacyApp =
  curDateISO :: string
  wkKey :: string
  startHour :: int
  dayStore :: DayStore
  weekStore :: "(string \<times> WeekGrid) list"
  activeTool :: Tool
  activeBrush :: string
  undoStack :: "Snapshot list"
  redoStack :: "Snapshot list"
  fineBoundsStore :: "(string \<times> FineBounds) list"
  selectedSegment :: "SelectedSeg option"
  resizeArmed :: bool
  resizeState :: "ResizeState option"

text \<open>The state of the component when it is mounted on date \<open>d\<close>, in the week \<open>w\<close>.\<close>

definition initialApp :: "string \<Rightarrow> string \<Rightarrow> LegacyApp" where
  "initialApp d w =
     \<lparr>curDateISO = d, wkKey = w, startHour = 6, dayStore = [], weekStore = [],
      activeTool = Tool_execute, activeBrush = ''work'', undoStack = [], redoStack = [],
      fineBoundsStore = [], selectedSegment = None, resizeArmed = False, resizeState = None\<rparr>"

definition dayGrid :: "LegacyApp \<Rightarrow> DayGrid" where
  "dayGrid a = (case map_of (dayStore a) (curDateISO a) of None \<Rightarrow> [] | Some g \<Rightarrow> g)"

definition weekGrid :: "LegacyApp \<Rightarrow> WeekGrid" where
  "weekGrid a = (case map_of (weekStore a) (wkKey a) of None \<Rightarrow> [] | Some g \<Rightarrow> g)"

definition currentSnapshot :: "LegacyApp \<Rightarrow> Snapshot" where
  "currentSnapshot a =
     \<lparr>grid = deepCloneGrid (dayGrid a), week = weekGrid a, snapTool = activeTool a,
      snapBrush = activeBrush a\<rparr>"

definition pushSnapshot :: "LegacyApp \<Rightarrow> LegacyApp" where
  "pushSnapshot a = a\<lparr>undoStack := undoStack a @ [currentSnapshot a], redoStack := []\<rparr>"

definition restoreSnapshot :: "Snapshot \<Rightarrow> LegacyApp \<Rightarrow> LegacyApp" where
  "restoreSnapshot snap a =
     a\<lparr>dayStore := AList.update (curDateISO a) (grid snap) (dayStore a),
       weekStore := AList.update (wkKey a) (week snap) (weekStore a),
       activeTool := snapTool snap, activeBrush := snapBrush snap\<rparr>"

definition onUndo :: "LegacyApp \<Rightarrow> LegacyApp" where
  "onUndo a =
     (if undoStack a = [] then a
      else restoreSnapshot (last (undoStack a))
             (a\<lparr>undoStack := butlast (undoStack a),
                redoStack := redoStack a @ [currentSnapshot a]\<rparr>))"

definition onRedo :: "LegacyApp \<Rightarrow> LegacyApp" where
  "onRedo a =
     (if redoStack a = [] then a
      else restoreSnapshot (last (redoStack a))
             (a\<lparr>redoStack := butlast (redoStack a),
                undoStack := undoStack a @ [currentSnapshot a]\<rparr>))"

definition layerName :: "GridLayer \<Rightarrow> string" where
  "layerName l = (case l of GExecute \<Rightarrow> ''execute'' | GOverlay \<Rightarrow> ''overlay'')"

definition segmentKey :: "string \<Rightarrow> int \<Rightarrow> SelectedSeg \<Rightarrow> string" where
  "segmentKey d sh seg =
     d @ ''|'' @ showInt (jsRem (sh + selRow seg) 24) @ ''|'' @ layerName (selLayer seg) @ ''|'' @
     selActivityId seg @ ''|'' @ showInt (selStartCol seg) @ ''-'' @ showInt (selEndCol seg)"

definition defaultFineBounds :: "SelectedSeg \<Rightarrow> FineBounds" where
  "defaultFineBounds seg =
     \<lparr>startMinute = selStartCol seg * 10, endMinute = (selEndCol seg + 1) * 10\<rparr>"

definition getLayer :: "GridLayer \<Rightarrow> CellData \<Rightarrow> string property" where
  "getLayer l cell = (case l of GExecute \<Rightarrow> execute cell | GOverlay \<Rightarrow> overlay cell)"

definition setLayer :: "GridLayer \<Rightarrow> string property \<Rightarrow> CellData \<Rightarrow> CellData" where
  "setLayer l v cell =
     (case l of GExecute \<Rightarrow> cell\<lparr>execute := v\<rparr> | GOverlay \<Rightarrow> cell\<lparr>overlay := v\<rparr>)"

text \<open>The body of the first loop of \<open>handleResize\<close>, for column \<open>c\<close>: a cell of the hour that
  holds the segment's activity in the segment's layer loses it when it is outside the new
  span.\<close>

definition trimColumn ::
  "string \<Rightarrow> int \<Rightarrow> SelectedSeg \<Rightarrow> int \<Rightarrow> int \<Rightarrow> DayGrid \<Rightarrow> int \<Rightarrow> DayGrid" where
  "trimColumn d hour base clampedStart clampedEnd next c =
     (let cid = makeCellId d hour c
      in case map_of next cid of
           None \<Rightarrow> next
         | Some cell \<Rightarrow>
             if getLayer (selLayer base) cell = Val (selActivityId base) then
               (if \<not> (c \<ge> clampedStart \<and> c \<le> clampedEnd) then
                  (case pruneCell (Some (setLayer (selLayer base) Absent cell)) of
                     Some pruned \<Rightarrow> AList.update cid pruned next
                   | None \<Rightarrow> AList.delete cid next)
                else AList.update cid cell next)
             else next)"

text \<open>The body of the second loop: the cell of column \<open>c\<close> is claimed for the segment.\<close>

definition claimColumn :: "string \<Rightarrow> int \<Rightarrow> SelectedSeg \<Rightarrow> DayGrid \<Rightarrow> int \<Rightarrow> DayGrid" where
  "claimColumn d hour base next c =
     (let cid = makeCellId d hour c;
          cell = (case map_of next cid of None \<Rightarrow> emptyCell | Some x \<Rightarrow> x)
      in AList.update cid (setLayer (selLayer base) (Val (selActivityId base)) cell) next)"

definition handleArmResize :: "LegacyApp \<Rightarrow> LegacyApp" where
  "handleArmResize a = (if selectedSegment a = None then a else a\<lparr>resizeArmed := True\<rparr>)"

definition handleResize :: "Side \<Rightarrow> int \<Rightarrow> LegacyApp \<Rightarrow> LegacyApp" where
  "handleResize side col a =
     (case selectedSegment a of
        None \<Rightarrow> a
      | Some sel \<Rightarrow>
          if \<not> resizeArmed a then a
          else
            (let a1 = (case resizeState a of
                         None \<Rightarrow> pushSnapshot
                                   (a\<lparr>resizeState :=
                                        Some \<lparr>rsPointerId = - 1, rsSide = side, rsBase = sel\<rparr>\<rparr>)
                       | Some r \<Rightarrow> a);
                 base = (case resizeState a1 of None \<Rightarrow> sel | Some r \<Rightarrow> rsBase r);
                 nextStart = (if side = SideStart then min col (selEndCol base)
                              else selStartCol base);
                 nextEnd = (if side = SideEnd then max col (selStartCol base)
                            else selEndCol base);
                 clampedStart = max 0 (min 5 nextStart);
                 clampedEnd = max clampedStart (min 5 nextEnd);
                 hour = jsRem (startHour a1 + selRow base) 24;
                 nextSeg = base\<lparr>selStartCol := clampedStart, selEndCol := clampedEnd\<rparr>;
                 existing = dayGrid a1;
                 trimmed = foldl (trimColumn (curDateISO a1) hour base clampedStart clampedEnd)
                             existing [0, 1, 2, 3, 4, 5];
                 claimed = foldl (claimColumn (curDateISO a1) hour base) trimmed
                             [clampedStart..clampedEnd];
                 fb = AList.update (segmentKey (curDateISO a1) (startHour a1) nextSeg)
                        \<lparr>startMinute = clampedStart * 10, endMinute = (clampedEnd + 1) * 10\<rparr>
                        (AList.delete (segmentKey (curDateISO a1) (startHour a1) base)
                           (fineBoundsStore a1))
             in a1\<lparr>dayStore := AList.update (curDateISO a1) claimed (dayStore a1),
                    fineBoundsStore := fb,
                    selectedSegment := Some nextSeg\<rparr>))"

definition handleFineResizeApply :: "Side \<Rightarrow> int \<Rightarrow> FineMode \<Rightarrow> LegacyApp \<Rightarrow> LegacyApp" where
  "handleFineResizeApply side minute mode a =
     (case selectedSegment a of
        None \<Rightarrow> a
      | Some base \<Rightarrow>
          (let key = segmentKey (curDateISO a) (startHour a) base;
               bounds = (case map_of (fineBoundsStore a) key of
                           None \<Rightarrow> defaultFineBounds base | Some b \<Rightarrow> b);
               snapped = (if mode = ModeSnap then snap10 minute else minute);
               minStart = selStartCol base * 10;
               maxEnd = (selEndCol base + 1) * 10;
               nextStart = (if side = SideStart then min (max minStart snapped) (maxEnd - 1)
                            else startMinute bounds);
               nextEnd0 = (if side = SideStart then endMinute bounds
                           else max (min maxEnd snapped) (minStart + 1));
               nextEnd = (if nextEnd0 \<le> nextStart then min maxEnd (nextStart + 1) else nextEnd0)
           in a\<lparr>fineBoundsStore :=
                  AList.update key \<lparr>startMinute = nextStart, endMinute = nextEnd\<rparr>
                    (fineBoundsStore a)\<rparr>))"

text \<open>
  \<open>findSegmentAtCell\<close> for the cell of hour \<open>hour\<close> and column \<open>col\<close> of the current date:
  the handler receives the id that \<open>makeCellId\<close> built for that cell, and \<open>parseCellId\<close>
  reads the hour and the column back from it.
\<close>

definition cellLayer :: "DayGrid \<Rightarrow> string \<Rightarrow> GridLayer \<Rightarrow> string option" where
  "cellLayer g cid l = (case map_of g cid of None \<Rightarrow> None | Some cell \<Rightarrow> readProp (getLayer l cell))"

function expandStart :: "DayGrid \<Rightarrow> string \<Rightarrow> int \<Rightarrow> GridLayer \<Rightarrow> string \<Rightarrow> int \<Rightarrow> int" where
  "expandStart g d hour l actId sc =
     (if sc > 0 then
        (if cellLayer g (makeCellId d hour (sc - 1)) l \<noteq> Some actId then sc
         else expandStart g d hour l actId (sc - 1))
      else sc)"
  by pat_completeness auto
termination
  by (relation "measure (\<lambda>(g, d, hour, l, actId, sc). nat sc)") auto

function expandEnd :: "DayGrid \<Rightarrow> string \<Rightarrow> int \<Rightarrow> GridLayer \<Rightarrow> string \<Rightarrow> int \<Rightarrow> int" where
  "expandEnd g d hour l actId ec =
     (if ec < 5 then
        (if cellLayer g (makeCellId d hour (ec + 1)) l \<noteq> Some actId then ec
         else expandEnd g d hour l actId (ec + 1))
      else ec)"
  by pat_completeness auto
termination
  by (relation "measure (\<lambda>(g, d, hour, l, actId, ec). nat (5 - ec))") auto

declare expandStart.simps [simp del] expandEnd.simps [simp del]

definition segmentOfLayer :: "LegacyApp \<Rightarrow> int \<Rightarrow> int \<Rightarrow> GridLayer \<Rightarrow> SelectedSeg option" where
  "segmentOfLayer a hour col l =
     (case cellLayer (dayGrid a) (makeCellId (curDateISO a) hour col) l of
        None \<Rightarrow> None
      | Some actId \<Rightarrow>
          if actId = [] then None
          else Some \<lparr>selRow = jsRem (hour - startHour a + 24) 24,
                     selStartCol = expandStart (dayGrid a) (curDateISO a) hour l actId col,
                     selEndCol = expandEnd (dayGrid a) (curDateISO a) hour l actId col,
                     selLayer = l, selActivityId = actId\<rparr>)"

definition findSegmentAtCell :: "LegacyApp \<Rightarrow> int \<Rightarrow> int \<Rightarrow> SelectedSeg option" where
  "findSegmentAtCell a hour col =
     (case segmentOfLayer a hour col GExecute of
        Some seg \<Rightarrow> Some seg
      | None \<Rightarrow> segmentOfLayer a hour col GOverlay)"

text \<open>A tap on a cell with the select tool (no emoji brush armed).\<close>

definition selectAtCell :: "int \<Rightarrow> int \<Rightarrow> LegacyApp \<Rightarrow> LegacyApp" where
  "selectAtCell hour col a =
     a\<lparr>selectedSegment := findSegmentAtCell a hour col, resizeArmed := False,
       resizeState := None\<rparr>"

text \<open>The global pointer-up listener of the resize.\<close>

definition resizePointerUp :: "LegacyApp \<Rightarrow> LegacyApp" where
  "resizePointerUp a = a\<lparr>resizeState := None\<rparr>"

text \<open>
  The operations of the legacy application that are modelled here, as a user can issue
  them one after the other.  The grid has the hours 0 to 23 and the columns 0 to 5; a tap
  outside it does not exist.
\<close>

datatype LegacyOp =
  OpPaint int int string
  | OpErase int int
  | OpSnapshot
  | OpUndo
  | OpRedo
  | OpSelect int int
  | OpArm
  | OpResize Side int
  | OpPointerUp
  | OpFineApply Side int FineMode

fun legacyStep :: "LegacyApp \<Rightarrow> LegacyOp \<Rightarrow> LegacyApp" where
  "legacyStep a (OpPaint hour col b) =
     (if 0 \<le> col \<and> col \<le> 5 then
        a\<lparr>dayStore := paintCell (curDateISO a) (makeCellId (curDateISO a) hour col) b (dayStore a)\<rparr>
      else a)"
| "legacyStep a (OpErase hour col) =
     (if 0 \<le> col \<and> col \<le> 5 then
        a\<lparr>dayStore := eraseCell (curDateISO a) (makeCellId (curDateISO a) hour col) (dayStore a)\<rparr>
      else a)"
| "legacyStep a OpSnapshot = pushSnapshot a"
| "legacyStep a OpUndo = onUndo a"
| "legacyStep a OpRedo = onRedo a"
| "legacyStep a (OpSelect hour col) =
     (if 0 \<le> col \<and> col \<le> 5 then selectAtCell hour col a else a)"
| "legacyStep a OpArm = handleArmResize a"
| "legacyStep a (OpResize side col) = handleResize side col a"
| "legacyStep a OpPointerUp = resizePointerUp a"
| "legacyStep a (OpFineApply side minute mode) = handleFineResizeApply side minute mode a"

definition legacyRun :: "string \<Rightarrow> string \<Rightarrow> LegacyOp list \<Rightarrow> LegacyApp" where
  "legacyRun d w ops = foldl legacyStep (initialApp d w) ops"

text \<open>
  The invariant of the fine-bounds store: the entry under the key of a segment with
  \<open>0 \<le> startCol \<le> endCol \<le> 5\<close> lies in that segment's coarse window.
\<close>

definition validSeg :: "SelectedSeg \<Rightarrow> bool" where
  "validSeg seg \<longleftrightarrow> 0 \<le> selStartCol seg \<and> selStartCol seg \<le> selEndCol seg \<and> selEndCol seg \<le> 5"

definition inWindow :: "SelectedSeg \<Rightarrow> FineBounds \<Rightarrow> bool" where
  "inWindow seg fb \<longleftrightarrow>
     selStartCol seg * 10 \<le> startMinute fb \<and> startMinute fb < endMinute fb \<and>
     endMinute fb \<le> (selEndCol seg + 1) * 10"

definition fineStoreValid :: "(string \<times> FineBounds) list \<Rightarrow> bool" where
  "fineStoreValid fs \<longleftrightarrow>
     (\<forall>d h seg fb. validSeg seg \<and> map_of fs (segmentKey d h seg) = Some fb \<longrightarrow> inWindow seg fb)"

text \<open>What every state of a run satisfies: the fine-bounds store is valid and a selected
  segment has \<open>0 \<le> startCol \<le> endCol \<le> 5\<close>.\<close>

definition resizeInv :: "LegacyApp \<Rightarrow> bool" where
  "resizeInv a \<longleftrightarrow>
     fineStoreValid (fineBoundsStore a) \<and> (\<forall>seg. selectedSegment a = Some seg \<longrightarrow> validSeg seg)"

section \<open>The segment compositor (\<open>buildSegmentsFromBlocks\<close>)\<close>

record Segment =
  row :: int
  startCol :: int
  endCol :: int
  segActivityId :: string
  segLayer :: Layer
  blockId :: "string option"

text \<open>The \<open>while\<close> loop of \<open>processBlocks\<close> for one block, from minute \<open>currentMin\<close> on; it
  returns the segments the source pushes, in order.\<close>

function rowSegments :: "int \<Rightarrow> Layer \<Rightarrow> Block \<Rightarrow> int \<Rightarrow> Segment list" where
  "rowSegments sh l block currentMin =
     (if currentMin < endMin block then
        (let hour = currentMin div 60;
             r = jsRem (hour - sh + 24) 24;
             hourStart = hour * 60;
             hourEnd = hourStart + 60;
             segmentStart = currentMin;
             segmentEnd = min (endMin block) hourEnd;
             sc = (segmentStart - hourStart) div 10;
             ec = max 0 (ceilDiv10 (segmentEnd - hourStart) - 1)
         in (if sc \<le> 5 \<and> ec \<ge> 0 then
               [\<lparr>row = r, startCol = max 0 sc, endCol = min 5 ec,
                 segActivityId = activityId block, segLayer = l, blockId = Some (bid block)\<rparr>]
             else [])
            @ rowSegments sh l block hourEnd)
      else [])"
  by pat_completeness auto
termination
  by (relation "measure (\<lambda>(sh, l, block, currentMin). nat (endMin block - currentMin))")
    (auto simp: Let_def)

declare rowSegments.simps [simp del]

definition processBlocks :: "int \<Rightarrow> Block list \<Rightarrow> Layer \<Rightarrow> Segment list" where
  "processBlocks sh blockList l = concat (map (\<lambda>block. rowSegments sh l block (startMin block)) blockList)"

definition buildSegmentsFromBlocks :: "Block list \<Rightarrow> int \<Rightarrow> Segment list" where
  "buildSegmentsFromBlocks bs sh =
     processBlocks sh (filter (\<lambda>b. layer b = Plan) bs) Plan @
     processBlocks sh (filter (\<lambda>b. layer b = Execute) bs) Execute @
     processBlocks sh (filter (\<lambda>b. layer b = Overlay) bs) Overlay"

section \<open>Migration of the legacy grid (lib/storage) and projection back (\<open>blocksToGrid\<close>)\<close>

text \<open>\<open>s.split(c)\<close> for a one-character separator.\<close>

fun splitOn :: "char \<Rightarrow> string \<Rightarrow> string list" where
  "splitOn c [] = [[]]"
| "splitOn c (x # xs) =
     (if x = c then [] # splitOn c xs
      else (case splitOn c xs of [] \<Rightarrow> [[x]] | w # ws \<Rightarrow> (x # w) # ws))"

definition nthOpt :: "'a list \<Rightarrow> nat \<Rightarrow> 'a option" where
  "nthOpt xs i = (if i < length xs then Some (xs ! i) else None)"

definition isDigit :: "char \<Rightarrow> bool" where
  "isDigit ch = (CHR ''0'' \<le> ch \<and> ch \<le> CHR ''9'')"

definition digitVal :: "char \<Rightarrow> int" where
  "digitVal ch = int (of_char ch) - 48"

text \<open>
  \<open>Number(text)\<close> where the text is a run of decimal digits (the empty text gives 0), as in
  every cell id that \<open>makeCellId\<close> builds.  \<open>None\<close> stands for all other arguments: there
  the source computes with \<open>NaN\<close> or with a number that no cell id contains, and the
  migration is not modelled.
\<close>

definition jsNumber :: "string option \<Rightarrow> int option" where
  "jsNumber t =
     (case t of
        None \<Rightarrow> None
      | Some s \<Rightarrow> if list_all isDigit s then Some (foldl (\<lambda>acc ch. acc * 10 + digitVal ch) 0 s)
                  else None)"

record CellInfo =
  ciHour :: int
  ciCol :: int
  ciExecute :: "string option"
  ciOverlay :: "string option"

definition cellInfo :: "DayGrid \<Rightarrow> string \<Rightarrow> CellInfo option" where
  "cellInfo g cellId =
     (let parts = splitOn CHR ''|'' cellId
      in case (jsNumber (nthOpt parts 1), jsNumber (nthOpt parts 2), map_of g cellId) of
           (Some hh, Some cc, Some cell) \<Rightarrow>
             Some \<lparr>ciHour = hh, ciCol = cc, ciExecute = readProp (execute cell),
                   ciOverlay = readProp (overlay cell)\<rparr>
         | _ \<Rightarrow> None)"

record RunSegment =
  runStartMin :: int
  runEndMin :: int
  runActivityId :: string

text \<open>
  The scan over the cells for one layer.  The source has it twice, once reading
  \<open>cell.execute\<close> and once reading \<open>cell.overlay\<close>; \<open>sel\<close> is that read.  \<open>segs\<close> is the array
  of finished runs, \<open>cur\<close> the running \<open>(startMin, activityId)\<close> or \<open>null\<close>.
\<close>

fun scanCells ::
  "(CellInfo \<Rightarrow> string option) \<Rightarrow> CellInfo list \<Rightarrow> RunSegment list \<Rightarrow> (int \<times> string) option
     \<Rightarrow> RunSegment list \<times> (int \<times> string) option" where
  "scanCells sel [] segs cur = (segs, cur)"
| "scanCells sel (cell # rest) segs cur =
     (let m = ciHour cell * 60 + ciCol cell * 10
      in if truthy (sel cell) then
           (case (cur, sel cell) of
              (Some (s, a), Some act) \<Rightarrow>
                if a = act then scanCells sel rest segs cur
                else scanCells sel rest
                       (segs @ [\<lparr>runStartMin = s, runEndMin = m, runActivityId = a\<rparr>])
                       (Some (m, act))
            | (None, Some act) \<Rightarrow> scanCells sel rest segs (Some (m, act))
            | (_, None) \<Rightarrow> scanCells sel rest segs cur)
         else
           (case cur of
              Some (s, a) \<Rightarrow>
                scanCells sel rest
                  (segs @ [\<lparr>runStartMin = s, runEndMin = m, runActivityId = a\<rparr>]) None
            | None \<Rightarrow> scanCells sel rest segs cur))"

text \<open>The scan and the final flush at the end of the last cell.  A running segment at the
  end implies a last cell; the branch for no cells is never taken.\<close>

definition layerRuns :: "(CellInfo \<Rightarrow> string option) \<Rightarrow> CellInfo list \<Rightarrow> RunSegment list" where
  "layerRuns sel cells =
     (case scanCells sel cells [] None of
        (segs, None) \<Rightarrow> segs
      | (segs, Some (s, a)) \<Rightarrow>
          (case cells of
             [] \<Rightarrow> segs
           | _ \<Rightarrow> segs @ [\<lparr>runStartMin = s,
                            runEndMin = ciHour (last cells) * 60 + (ciCol (last cells) + 1) * 10,
                            runActivityId = a\<rparr>]))"

definition migratedBlock :: "int \<Rightarrow> string \<Rightarrow> string \<Rightarrow> Layer \<Rightarrow> RunSegment \<Rightarrow> Block" where
  "migratedBlock now d prefix l seg =
     \<lparr>startMin = runStartMin seg, endMin = runEndMin seg, layer = l,
      bid = prefix @ d @ ''_'' @ showInt (runStartMin seg), dateISO = d,
      activityId = runActivityId seg, title = None, source = Manual, paintStyle = None,
      planRef = None, resistance = None, extension = None, score = None,
      createdAt = now, updatedAt = now\<rparr>"

text \<open>The body of the loop over the dates: the blocks of one date, \<open>None\<close> when a cell id
  is outside the model (see \<open>jsNumber\<close>).\<close>

definition migrateDate :: "int \<Rightarrow> string \<Rightarrow> DayGrid \<Rightarrow> Block list option" where
  "migrateDate now d g =
     (case those (map (cellInfo g) (sort (map fst g))) of
        None \<Rightarrow> None
      | Some cells \<Rightarrow>
          Some (map (migratedBlock now d ''migrated_exec_'' Execute) (layerRuns ciExecute cells) @
                map (migratedBlock now d ''migrated_overlay_'' Overlay) (layerRuns ciOverlay cells)))"

fun migrateDates :: "int \<Rightarrow> DayStore \<Rightarrow> BlocksByDate \<Rightarrow> BlocksByDate option" where
  "migrateDates now [] blocksByDate = Some blocksByDate"
| "migrateDates now ((d, g) # rest) blocksByDate =
     (case migrateDate now d g of
        None \<Rightarrow> None
      | Some bs \<Rightarrow>
          migrateDates now rest
            (if length bs > 0 then AList.update d bs blocksByDate else blocksByDate))"

definition migrateDayGridToBlocks :: "int \<Rightarrow> DayStore \<Rightarrow> BlocksByDate option" where
  "migrateDayGridToBlocks now dayGrids = migrateDates now dayGrids []"

text \<open>The \<open>while\<close> loop of \<open>blocksToGrid\<close> for one block, from minute \<open>currentMin\<close> on.\<close>

function fillCells :: "string \<Rightarrow> Block \<Rightarrow> int \<Rightarrow> DayGrid \<Rightarrow> DayGrid" where
  "fillCells d block currentMin g =
     (if currentMin < endMin block then
        (let hour = currentMin div 60;
             col = (jsRem currentMin 60) div 10;
             cellId = makeCellId d hour col;
             g1 = (if map_of g cellId = None then AList.update cellId emptyCell g else g);
             cell = (case map_of g1 cellId of None \<Rightarrow> emptyCell | Some c \<Rightarrow> c);
             g2 = (if layer block = Execute then
                     AList.update cellId (cell\<lparr>execute := Val (activityId block)\<rparr>) g1
                   else if layer block = Overlay then
                     AList.update cellId (cell\<lparr>overlay := Val (activityId block)\<rparr>) g1
                   else g1)
         in fillCells d block (currentMin + 10) g2)
      else g)"
  by pat_completeness auto
termination
  by (relation "measure (\<lambda>(d, block, currentMin, g). nat (endMin block - currentMin))") auto

declare fillCells.simps [simp del]

definition blocksToGrid :: "Block list \<Rightarrow> string \<Rightarrow> DayGrid" where
  "blocksToGrid bs d =
     foldl (\<lambda>g block. if dateISO block \<noteq> d then g else fillCells d block (startMin block) g)
       [] bs"

text \<open>The activity that a grid shows in a cell for a layer: \<open>None\<close> when the cell is absent
  or the slot is empty.\<close>

definition shownActivity :: "GridLayer \<Rightarrow> DayGrid \<Rightarrow> string \<Rightarrow> string option" where
  "shownActivity l g cellId =
     (case map_of g cellId of
        None \<Rightarrow> None
      | Some cell \<Rightarrow> (if truthy (readProp (getLayer l cell)) then readProp (getLayer l cell)
                      else None))"

section \<open>The day timeline (the \<open>DayTimeline\<close> component)\<close>

record TimelineSegment =
  tlRow :: int
  tlStartCol :: int
  tlEndCol :: int
  tlLayer :: GridLayer
  tlActivityId :: string
  tlStartMinute :: int
  tlEndMinute :: int

text \<open>The body of the loop over the hours \<open>h\<close> that a block touches.\<close>

definition hourSegment :: "int \<Rightarrow> Block \<Rightarrow> GridLayer \<Rightarrow> int \<Rightarrow> TimelineSegment" where
  "hourSegment sh block l h =
     (let hourStart = h * 60;
          hourEnd = (h + 1) * 60;
          segStart = max (startMin block) hourStart;
          segEnd = min (endMin block) hourEnd
      in \<lparr>tlRow = jsRem (h - sh + 24) 24,
          tlStartCol = (segStart - hourStart) div 10,
          tlEndCol = (segEnd - hourStart - 1) div 10,
          tlLayer = l, tlActivityId = activityId block,
          tlStartMinute = segStart - hourStart, tlEndMinute = segEnd - hourStart\<rparr>)"

definition convertBlocksToSegments :: "Block list \<Rightarrow> int \<Rightarrow> TimelineSegment list" where
  "convertBlocksToSegments bs sh =
     concat (map (\<lambda>block.
        (case layer block of
           Plan \<Rightarrow> []
         | Execute \<Rightarrow> map (hourSegment sh block GExecute)
                        [startMin block div 60 .. (endMin block - 1) div 60]
         | Overlay \<Rightarrow> map (hourSegment sh block GOverlay)
                        [startMin block div 60 .. (endMin block - 1) div 60])) bs)"

text \<open>\<open>activityMap\<close>: a \<open>Map\<close> filled by \<open>activities.forEach(a => map.set(a.id, a))\<close>.\<close>

definition activityMap :: "Activity list \<Rightarrow> (string \<rightharpoonup> Activity)" where
  "activityMap acts = foldl (\<lambda>m a. m(aid a \<mapsto> a)) Map.empty acts"

text \<open>What the component renders for a segment: the absolutely positioned box, or nothing
  (\<open>return null\<close>) when the activity is not in the map.  The column width is 40 and the
  row height 80.\<close>

record Box =
  boxLeft :: int
  boxTop :: int
  boxWidth :: int
  boxHeight :: int
  boxColor :: string
  boxLabel :: "string option"

definition renderExecuteSegment :: "(string \<rightharpoonup> Activity) \<Rightarrow> TimelineSegment \<Rightarrow> Box option" where
  "renderExecuteSegment m seg =
     (case m (tlActivityId seg) of
        None \<Rightarrow> None
      | Some activity \<Rightarrow>
          Some \<lparr>boxLeft = tlStartCol seg * 40, boxTop = tlRow seg * 80 + 4,
                boxWidth = (tlEndCol seg - tlStartCol seg + 1) * 40, boxHeight = 80 - 8,
                boxColor = color activity, boxLabel = Some (name activity)\<rparr>)"

definition renderOverlaySegment :: "(string \<rightharpoonup> Activity) \<Rightarrow> TimelineSegment \<Rightarrow> Box option" where
  "renderOverlaySegment m seg =
     (case m (tlActivityId seg) of
        None \<Rightarrow> None
      | Some activity \<Rightarrow>
          Some \<lparr>boxLeft = tlStartCol seg * 40, boxTop = tlRow seg * 80 + 80 - 14,
                boxWidth = (tlEndCol seg - tlStartCol seg + 1) * 40, boxHeight = 8,
                boxColor = color activity, boxLabel = None\<rparr>)"

section \<open>Properties of the overlap engine\<close>


lemma loop_acc:
  "resolveOverlaps_loop env c ex bs result st =
     (result @ fst (resolveOverlaps_loop env c ex bs [] st),
      snd (resolveOverlaps_loop env c ex bs [] st))"
proof (induction bs arbitrary: result st)
  case Nil
  then show ?case by simp
next
  case (Cons b bs)
  note app = Cons.IH [where result = "result @ xs" for xs]
  note cons = Cons.IH [where result = "x # xs" for x xs]
  note same = Cons.IH [of result]
  show ?case
    by (simp add: Let_def app cons same)
qed

lemma resolveOverlaps_Nil: "resolveOverlaps env st [] c ex = ([], st)"
  by (simp add: resolveOverlaps_def)

lemma resolveOverlaps_keep:
  assumes "layer b \<noteq> layer c \<or> Some (bid b) = ex \<or> endMin b \<le> startMin c \<or> endMin c \<le> startMin b"
  shows "resolveOverlaps env st (b # bs) c ex =
           (b # fst (resolveOverlaps env st bs c ex), snd (resolveOverlaps env st bs c ex))"
  using assms loop_acc [of env c ex bs "[b]" st]
  by (auto simp: resolveOverlaps_def)

lemma resolveOverlaps_drop:
  assumes "layer b = layer c" "Some (bid b) \<noteq> ex"
    "startMin c < endMin b" "startMin b < endMin c"
    "startMin c \<le> startMin b" "endMin b \<le> endMin c"
  shows "resolveOverlaps env st (b # bs) c ex = resolveOverlaps env st bs c ex"
  using assms by (simp add: resolveOverlaps_def)

lemma resolveOverlaps_tail:
  assumes "layer b = layer c" "Some (bid b) \<noteq> ex"
    "startMin c < endMin b" "startMin b < endMin c"
    "startMin b < startMin c" "endMin b \<le> endMin c"
  shows "resolveOverlaps env st (b # bs) c ex =
           (b\<lparr>endMin := startMin c\<rparr> # fst (resolveOverlaps env st bs c ex),
            snd (resolveOverlaps env st bs c ex))"
  using assms loop_acc [of env c ex bs "[b\<lparr>endMin := startMin c\<rparr>]" st]
  by (simp add: resolveOverlaps_def)

lemma resolveOverlaps_head:
  assumes "layer b = layer c" "Some (bid b) \<noteq> ex"
    "startMin c < endMin b" "startMin b < endMin c"
    "startMin c \<le> startMin b" "endMin c < endMin b"
  shows "resolveOverlaps env st (b # bs) c ex =
           (b\<lparr>startMin := endMin c\<rparr> # fst (resolveOverlaps env st bs c ex),
            snd (resolveOverlaps env st bs c ex))"
  using assms loop_acc [of env c ex bs "[b\<lparr>startMin := endMin c\<rparr>]" st]
  by (simp add: resolveOverlaps_def)

lemma resolveOverlaps_split:
  assumes "layer b = layer c" "Some (bid b) \<noteq> ex"
    "startMin c < endMin b" "startMin b < endMin c"
    "startMin b < startMin c" "endMin c < endMin b"
  shows "resolveOverlaps env st (b # bs) c ex =
           (b\<lparr>endMin := startMin c\<rparr> #
            b\<lparr>bid := fst (generateId env st), startMin := endMin c\<rparr> #
            fst (resolveOverlaps env (snd (generateId env st)) bs c ex),
            snd (resolveOverlaps env (snd (generateId env st)) bs c ex))"
  using assms
    loop_acc [of env c ex bs "[b\<lparr>endMin := startMin c\<rparr>,
       b\<lparr>bid := fst (generateId env st), startMin := endMin c\<rparr>]" "snd (generateId env st)"]
  by (simp add: resolveOverlaps_def Let_def)

lemma resolveOverlaps_append:
  "resolveOverlaps env st (xs @ ys) c ex =
     (fst (resolveOverlaps env st xs c ex) @
        fst (resolveOverlaps env (snd (resolveOverlaps env st xs c ex)) ys c ex),
      snd (resolveOverlaps env (snd (resolveOverlaps env st xs c ex)) ys c ex))"
proof (induction xs arbitrary: st)
  case Nil
  show ?case by (simp add: resolveOverlaps_Nil)
next
  case (Cons b xs)
  consider (keep) "layer b \<noteq> layer c \<or> Some (bid b) = ex \<or> endMin b \<le> startMin c \<or> endMin c \<le> startMin b"
    | (drop) "layer b = layer c" "Some (bid b) \<noteq> ex"
        "startMin c < endMin b" "startMin b < endMin c" "startMin c \<le> startMin b" "endMin b \<le> endMin c"
    | (tail) "layer b = layer c" "Some (bid b) \<noteq> ex"
        "startMin c < endMin b" "startMin b < endMin c" "startMin b < startMin c" "endMin b \<le> endMin c"
    | (head) "layer b = layer c" "Some (bid b) \<noteq> ex"
        "startMin c < endMin b" "startMin b < endMin c" "startMin c \<le> startMin b" "endMin c < endMin b"
    | (split) "layer b = layer c" "Some (bid b) \<noteq> ex"
        "startMin c < endMin b" "startMin b < endMin c" "startMin b < startMin c" "endMin c < endMin b"
    by linarith
  then show ?case
  proof cases
    case keep
    show ?thesis
      by (simp add: resolveOverlaps_keep [OF keep] Cons.IH)
  next
    case drop
    show ?thesis
      by (simp add: resolveOverlaps_drop [OF drop] Cons.IH)
  next
    case tail
    show ?thesis
      by (simp add: resolveOverlaps_tail [OF tail] Cons.IH)
  next
    case head
    show ?thesis
      by (simp add: resolveOverlaps_head [OF head] Cons.IH)
  next
    case split
    show ?thesis
      by (simp add: resolveOverlaps_split [OF split] Cons.IH)
  qed
qed




subsection \<open>What \<open>generateId\<close> guarantees\<close>

lemma digit36_distinct:
  "distinct ''0123456789abcdefghijklmnopqrstuvwxyz''"
  by simp

lemma digit36_not_dash: "d < 36 \<Longrightarrow> digit36 d \<noteq> CHR ''-''"
proof -
  assume "d < 36"
  then have "digit36 d \<in> set ''0123456789abcdefghijklmnopqrstuvwxyz''"
    unfolding digit36_def by (intro nth_mem) simp
  then show ?thesis by auto
qed

lemma digit36_inj: "d < 36 \<Longrightarrow> e < 36 \<Longrightarrow> digit36 d = digit36 e \<Longrightarrow> d = e"
  unfolding digit36_def
  using nth_eq_iff_index_eq [OF digit36_distinct, of d e] by simp

lemma toString36_no_dash: "CHR ''-'' \<notin> set (toString36 n)"
proof (induction n rule: toString36.induct)
  case (1 n)
  show ?case
  proof (cases "n < 36")
    case True
    then show ?thesis
      using digit36_not_dash [of n] by (subst toString36.simps) auto
  next
    case False
    then show ?thesis
      using 1 digit36_not_dash [of "n mod 36"] by (subst toString36.simps) auto
  qed
qed

lemma toString36_length: "length (toString36 n) = 1 \<longleftrightarrow> n < 36"
proof (cases "n < 36")
  case True
  then show ?thesis by (subst toString36.simps) simp
next
  case False
  have "toString36 (n div 36) \<noteq> []"
    by (subst toString36.simps) simp
  then show ?thesis
    using False by (subst toString36.simps) simp
qed

lemma toString36_inj: "toString36 n = toString36 m \<Longrightarrow> n = m"
proof (induction n arbitrary: m rule: toString36.induct)
  case (1 n)
  show ?case
  proof (cases "n < 36")
    case True
    with 1(2) have m: "m < 36"
      using toString36_length [of n] toString36_length [of m] by simp
    from 1(2) True m have "digit36 n = digit36 m"
      by (simp add: toString36.simps [of n] toString36.simps [of m])
    with True m show ?thesis by (rule digit36_inj)
  next
    case False
    with 1(2) have m: "\<not> m < 36"
      using toString36_length [of n] toString36_length [of m] by simp
    from 1(2) False m
    have "toString36 (n div 36) = toString36 (m div 36)" and "digit36 (n mod 36) = digit36 (m mod 36)"
      by (simp_all add: toString36.simps [of n] toString36.simps [of m])
    then have "n div 36 = m div 36" and "n mod 36 = m mod 36"
      using 1(1) [OF False] digit36_inj [of "n mod 36" "m mod 36"] by simp_all
    then show ?thesis
      by (metis div_mult_mod_eq)
  qed
qed

lemma split_at_first:
  "x \<notin> set xs \<Longrightarrow> x \<notin> set xs' \<Longrightarrow> xs @ x # ys = xs' @ x # ys' \<Longrightarrow>
     xs = xs' \<and> ys = ys'"
proof (induction xs arbitrary: xs')
  case Nil
  then show ?case by (cases xs') auto
next
  case (Cons a xs)
  then show ?case by (cases xs') auto
qed

lemma generateId_inj:
  assumes "fst (generateId env s) = fst (generateId env s')"
  shows "fst (env (calls s)) = fst (env (calls s')) \<and>
         (idCounter s + 1) mod 1000 = (idCounter s' + 1) mod 1000 \<and>
         snd (env (calls s)) = snd (env (calls s'))"
proof -
  define t c r where "t = fst (env (calls s))" and "c = (idCounter s + 1) mod 1000"
    and "r = snd (env (calls s))"
  define t' c' r' where "t' = fst (env (calls s'))" and "c' = (idCounter s' + 1) mod 1000"
    and "r' = snd (env (calls s'))"
  have g: "fst (generateId env s) = toString36 t @ CHR ''-'' # (toString36 c @ CHR ''-'' # r)"
    "fst (generateId env s') = toString36 t' @ CHR ''-'' # (toString36 c' @ CHR ''-'' # r')"
    unfolding generateId_def t_def c_def r_def t'_def c'_def r'_def
    by (simp_all only: Let_def fst_conv append_Cons append_Nil)
  from assms have e: "toString36 t @ CHR ''-'' # (toString36 c @ CHR ''-'' # r) =
      toString36 t' @ CHR ''-'' # (toString36 c' @ CHR ''-'' # r')"
    unfolding g .
  from split_at_first [OF toString36_no_dash toString36_no_dash e]
  have 1: "toString36 t = toString36 t'"
    and e2: "toString36 c @ CHR ''-'' # r = toString36 c' @ CHR ''-'' # r'"
    by blast+
  from split_at_first [OF toString36_no_dash toString36_no_dash e2]
  have "toString36 c = toString36 c'" and "r = r'"
    by blast+
  with 1 have "toString36 t = toString36 t'" and "toString36 c = toString36 c'" and "r = r'"
    by blast+
  then have "t = t'" and "c = c'" and "r = r'"
    by (auto dest: toString36_inj)
  then show ?thesis
    unfolding t_def c_def r_def t'_def c'_def r'_def by simp
qed

lemma afterCalls_counter:
  "0 < j \<Longrightarrow> idCounter (afterCalls env j st) = (idCounter st + j) mod 1000"
proof (induction j)
  case 0
  then show ?case by simp
next
  case (Suc j)
  have step: "afterCalls env (Suc j) st = snd (generateId env (afterCalls env j st))"
    by (simp add: afterCalls_def)
  show ?case
  proof (cases "j = 0")
    case True
    then show ?thesis
      by (simp add: afterCalls_def generateId_def Let_def)
  next
    case False
    with Suc.IH have "idCounter (afterCalls env j st) = (idCounter st + j) mod 1000" by simp
    then show ?thesis
      unfolding step by (simp add: generateId_def Let_def mod_Suc_eq)
  qed
qed


lemma generateId_eq_iff:
  "fst (generateId env s) = fst (generateId env s') \<longleftrightarrow>
     fst (env (calls s)) = fst (env (calls s')) \<and>
     (idCounter s + 1) mod 1000 = (idCounter s' + 1) mod 1000 \<and>
     snd (env (calls s)) = snd (env (calls s'))"
proof
  assume "fst (generateId env s) = fst (generateId env s')"
  then show "fst (env (calls s)) = fst (env (calls s')) \<and>
     (idCounter s + 1) mod 1000 = (idCounter s' + 1) mod 1000 \<and>
     snd (env (calls s)) = snd (env (calls s'))"
    by (rule generateId_inj)
next
  assume "fst (env (calls s)) = fst (env (calls s')) \<and>
     (idCounter s + 1) mod 1000 = (idCounter s' + 1) mod 1000 \<and>
     snd (env (calls s)) = snd (env (calls s'))"
  then show "fst (generateId env s) = fst (generateId env s')"
    unfolding generateId_def by (simp only: Let_def fst_conv)
qed

lemma generateId_repeats:
  "fst (generateId fixedEnv (afterCalls fixedEnv 1000 st)) = fst (generateId fixedEnv st)"
  unfolding generateId_eq_iff
  by (simp add: fixedEnv_def afterCalls_counter mod_simps)



text \<open>
  Claim C10.  Time ranges are half-open.  A block \<open>b\<close> of the candidate's layer that
  merely touches the candidate (\<open>endMin b = startMin c\<close> or \<open>startMin b = endMin c\<close>) is
  not reported by \<open>detectOverlap\<close>, and \<open>resolveOverlaps\<close> emits it unchanged at its
  place between the results for the blocks before and after it.
\<close>

theorem touching_blocks_kept:
  fixes c :: "'a TimeRange_scheme"
  assumes "layer b = layer c"
    and "endMin b = startMin c \<or> startMin b = endMin c"
  shows "b \<notin> set (detectOverlap c (pre @ b # post) ex) \<and>
     resolveOverlaps env st (pre @ b # post) c ex =
       (fst (resolveOverlaps env st pre c ex) @
          b # fst (resolveOverlaps env (snd (resolveOverlaps env st pre c ex)) post c ex),
        snd (resolveOverlaps env (snd (resolveOverlaps env st pre c ex)) post c ex))"
proof -
  have touch: "layer b \<noteq> layer c \<or> Some (bid b) = ex \<or> endMin b \<le> startMin c
      \<or> endMin c \<le> startMin b"
    using assms(2) by auto
  have "b \<notin> set (detectOverlap c (pre @ b # post) ex)"
    using assms(2) by (auto simp: detectOverlap_def)
  moreover have "resolveOverlaps env st (pre @ b # post) c ex =
       (fst (resolveOverlaps env st pre c ex) @
          b # fst (resolveOverlaps env (snd (resolveOverlaps env st pre c ex)) post c ex),
        snd (resolveOverlaps env (snd (resolveOverlaps env st pre c ex)) post c ex))"
    by (simp add: resolveOverlaps_append resolveOverlaps_keep [OF touch])
  ultimately show ?thesis by simp
qed

theorem touching_blocks_kept_witness:
  "blockOf ''a'' ''2024-01-01'' 0 20 ''work'' Execute
     \<notin> set (detectOverlap \<lparr>startMin = 20, endMin = 30, layer = Execute\<rparr>
          [blockOf ''a'' ''2024-01-01'' 0 20 ''work'' Execute,
           blockOf ''b'' ''2024-01-01'' 30 40 ''rest'' Execute] None) \<and>
   fst (resolveOverlaps fixedEnv \<lparr>idCounter = 0, calls = 0\<rparr>
          [blockOf ''a'' ''2024-01-01'' 0 20 ''work'' Execute,
           blockOf ''b'' ''2024-01-01'' 30 40 ''rest'' Execute]
          \<lparr>startMin = 20, endMin = 30, layer = Execute\<rparr> None) =
     [blockOf ''a'' ''2024-01-01'' 0 20 ''work'' Execute,
      blockOf ''b'' ''2024-01-01'' 30 40 ''rest'' Execute]"
proof -
  have l: "layer (blockOf ''a'' ''2024-01-01'' 0 20 ''work'' Execute)
      = layer \<lparr>startMin = 20, endMin = 30, layer = Execute\<rparr>"
    by (simp add: blockOf_def)
  have t: "endMin (blockOf ''a'' ''2024-01-01'' 0 20 ''work'' Execute)
        = startMin \<lparr>startMin = 20, endMin = 30, layer = Execute\<rparr>
      \<or> startMin (blockOf ''a'' ''2024-01-01'' 0 20 ''work'' Execute)
        = endMin \<lparr>startMin = 20, endMin = 30, layer = Execute\<rparr>"
    by (simp add: blockOf_def)
  have r: "resolveOverlaps fixedEnv \<lparr>idCounter = 0, calls = 0\<rparr>
      [blockOf ''b'' ''2024-01-01'' 30 40 ''rest'' Execute]
      \<lparr>startMin = 20, endMin = 30, layer = Execute\<rparr> None
      = ([blockOf ''b'' ''2024-01-01'' 30 40 ''rest'' Execute], \<lparr>idCounter = 0, calls = 0\<rparr>)"
    by (simp add: resolveOverlaps_def blockOf_def)
  show ?thesis
    using touching_blocks_kept [OF l t, of "[]"
        "[blockOf ''b'' ''2024-01-01'' 30 40 ''rest'' Execute]" None
        fixedEnv "\<lparr>idCounter = 0, calls = 0\<rparr>"]
    by (simp add: r resolveOverlaps_Nil)
qed



section \<open>The non-overlap invariant\<close>

lemma within_refl: "within b b"
  by (simp add: within_def)

lemma conflict_within:
  "within r b \<Longrightarrow> within r' b' \<Longrightarrow> conflict r r' \<Longrightarrow> conflict b b'"
  by (auto simp: within_def conflict_def)

lemma noOverlap_append:
  "noOverlap (xs @ ys) \<longleftrightarrow>
     noOverlap xs \<and> noOverlap ys \<and> (\<forall>x \<in> set xs. \<forall>y \<in> set ys. \<not> conflict x y)"
  by (induction xs) auto

lemma resolveOverlaps_cases:
  fixes c :: "'a TimeRange_scheme"
  obtains (keep) "resolveOverlaps env st (b # bs) c ex =
        (b # fst (resolveOverlaps env st bs c ex), snd (resolveOverlaps env st bs c ex))"
      "layer b \<noteq> layer c \<or> Some (bid b) = ex \<or> endMin b \<le> startMin c \<or> endMin c \<le> startMin b"
  | (drop) "resolveOverlaps env st (b # bs) c ex = resolveOverlaps env st bs c ex"
  | (tail) "resolveOverlaps env st (b # bs) c ex =
        (b\<lparr>endMin := startMin c\<rparr> # fst (resolveOverlaps env st bs c ex),
         snd (resolveOverlaps env st bs c ex))"
      "layer b = layer c" "startMin b < startMin c" "startMin c < endMin b"
  | (head) "resolveOverlaps env st (b # bs) c ex =
        (b\<lparr>startMin := endMin c\<rparr> # fst (resolveOverlaps env st bs c ex),
         snd (resolveOverlaps env st bs c ex))"
      "layer b = layer c" "startMin b < endMin c" "endMin c < endMin b"
  | (split) "resolveOverlaps env st (b # bs) c ex =
        (b\<lparr>endMin := startMin c\<rparr> #
         b\<lparr>bid := fst (generateId env st), startMin := endMin c\<rparr> #
         fst (resolveOverlaps env (snd (generateId env st)) bs c ex),
         snd (resolveOverlaps env (snd (generateId env st)) bs c ex))"
      "layer b = layer c" "startMin b < startMin c" "startMin c < endMin b"
      "startMin b < endMin c" "endMin c < endMin b"
proof -
  consider (k) "layer b \<noteq> layer c \<or> Some (bid b) = ex \<or> endMin b \<le> startMin c \<or> endMin c \<le> startMin b"
    | (d) "layer b = layer c" "Some (bid b) \<noteq> ex"
        "startMin c < endMin b" "startMin b < endMin c" "startMin c \<le> startMin b" "endMin b \<le> endMin c"
    | (t) "layer b = layer c" "Some (bid b) \<noteq> ex"
        "startMin c < endMin b" "startMin b < endMin c" "startMin b < startMin c" "endMin b \<le> endMin c"
    | (h) "layer b = layer c" "Some (bid b) \<noteq> ex"
        "startMin c < endMin b" "startMin b < endMin c" "startMin c \<le> startMin b" "endMin c < endMin b"
    | (s) "layer b = layer c" "Some (bid b) \<noteq> ex"
        "startMin c < endMin b" "startMin b < endMin c" "startMin b < startMin c" "endMin c < endMin b"
    by linarith
  then show thesis
  proof cases
    case k
    from resolveOverlaps_keep [OF k] k show ?thesis by (rule keep)
  next
    case d
    from resolveOverlaps_drop [OF d] show ?thesis by (rule drop)
  next
    case t
    from resolveOverlaps_tail [OF t] t show ?thesis by (intro tail)
  next
    case h
    from resolveOverlaps_head [OF h] h show ?thesis by (intro head)
  next
    case s
    from resolveOverlaps_split [OF s] s show ?thesis by (intro split)
  qed
qed

lemma resolveOverlaps_within:
  fixes c :: "'a TimeRange_scheme"
  shows "r \<in> set (fst (resolveOverlaps env st bs c ex)) \<Longrightarrow> \<exists>b \<in> set bs. within r b"
proof (induction bs arbitrary: st)
  case Nil
  then show ?case by (simp add: resolveOverlaps_Nil)
next
  case (Cons b bs)
  show ?case
  proof (cases rule: resolveOverlaps_cases [of env st b bs c ex])
    case keep
    with Cons show ?thesis by (auto simp: within_refl)
  next
    case drop
    with Cons show ?thesis by auto
  next
    case tail
    with Cons show ?thesis by (auto simp: within_def)
  next
    case head
    with Cons show ?thesis by (auto simp: within_def)
  next
    case split
    with Cons show ?thesis by (auto simp: within_def)
  qed
qed

lemma resolveOverlaps_clear:
  fixes c :: "'a TimeRange_scheme"
  shows "r \<in> set (fst (resolveOverlaps env st bs c None)) \<Longrightarrow> layer r = layer c \<Longrightarrow>
     \<not> (startMin c < endMin r \<and> startMin r < endMin c)"
proof (induction bs arbitrary: st)
  case Nil
  then show ?case by (simp add: resolveOverlaps_Nil)
next
  case (Cons b bs)
  show ?case
  proof (cases rule: resolveOverlaps_cases [of env st b bs c None])
    case keep
    with Cons show ?thesis by auto
  next
    case drop
    with Cons show ?thesis by auto
  next
    case tail
    with Cons show ?thesis by auto
  next
    case head
    with Cons show ?thesis by auto
  next
    case split
    with Cons show ?thesis by auto
  qed
qed

lemma resolveOverlaps_noOverlap:
  fixes c :: "'a TimeRange_scheme"
  assumes wf: "startMin c \<le> endMin c"
  shows "noOverlap bs \<Longrightarrow> noOverlap (fst (resolveOverlaps env st bs c ex))"
proof (induction bs arbitrary: st)
  case Nil
  then show ?case by (simp add: resolveOverlaps_Nil)
next
  case (Cons b bs)
  have tl: "noOverlap (fst (resolveOverlaps env s bs c ex))" for s
    using Cons by simp
  have sep: "\<not> conflict p r"
    if "within p b" and "r \<in> set (fst (resolveOverlaps env s bs c ex))" for p r s
  proof -
    from that(2) obtain x where x: "x \<in> set bs" "within r x"
      using resolveOverlaps_within by blast
    with Cons.prems have "\<not> conflict b x" by simp
    with that(1) x(2) show ?thesis using conflict_within by blast
  qed
  show ?case
  proof (cases rule: resolveOverlaps_cases [of env st b bs c ex])
    case keep
    then show ?thesis using tl sep [OF within_refl] by simp
  next
    case drop
    then show ?thesis using tl by simp
  next
    case tail
    have "within (b\<lparr>endMin := startMin c\<rparr>) b"
      using tail by (simp add: within_def)
    then show ?thesis using tail tl sep by simp
  next
    case head
    have "within (b\<lparr>startMin := endMin c\<rparr>) b"
      using head by (simp add: within_def)
    then show ?thesis using head tl sep by simp
  next
    case split
    have l: "within (b\<lparr>endMin := startMin c\<rparr>) b"
      using split by (simp add: within_def)
    have r: "within (b\<lparr>bid := fst (generateId env st), startMin := endMin c\<rparr>) b"
      using split by (simp add: within_def)
    have "\<not> conflict (b\<lparr>endMin := startMin c\<rparr>)
        (b\<lparr>bid := fst (generateId env st), startMin := endMin c\<rparr>)"
      using wf by (simp add: conflict_def)
    then show ?thesis using split(1) tl sep [OF l] sep [OF r] by simp
  qed
qed

lemma addBlock_noOverlap:
  assumes "noOverlap bs" and "startMin nb \<le> endMin nb"
  shows "noOverlap (fst (addBlock env st bs nb))"
proof -
  have "\<not> conflict r nb" if "r \<in> set (fst (resolveOverlaps env st bs nb None))" for r
    using resolveOverlaps_clear [OF that] by (auto simp: conflict_def)
  then show ?thesis
    using resolveOverlaps_noOverlap [OF assms(2) assms(1)]
    by (simp add: addBlock_def Let_def noOverlap_append)
qed

text \<open>
  Claim C1.  The invariant of the block store is that no two stored blocks of one date and
  one layer intersect.  \<open>addBlock\<close> of lib/blocks.ts keeps it (\<open>addBlock_noOverlap\<close> above).
  The store's own \<open>addBlock\<close>, which the drag handler calls, appends the block without
  calling the overlap engine: painting the cell 06:10 in two successive drags, starting
  from the empty store, leaves two execute blocks over \<open>[370, 380)\<close> on the same date.
\<close>

theorem store_paint_twice_overlaps:
  "getBlocksForDate
     (store (foldl (dispatch fixedEnv ''2024-01-01'') emptyPlanner
        [PointerDown 6 0, PointerEnter 6 1 1, PointerUp,
         PointerDown 6 0, PointerEnter 6 1 1, PointerUp])) ''2024-01-01'' =
     [blockOf ''0-1-r'' ''2024-01-01'' 370 380 ''work'' Execute,
      blockOf ''0-2-r'' ''2024-01-01'' 370 380 ''work'' Execute] \<and>
   conflict (blockOf ''0-1-r'' ''2024-01-01'' 370 380 ''work'' Execute)
     (blockOf ''0-2-r'' ''2024-01-01'' 370 380 ''work'' Execute)"
  by (simp add: getBlocksForDate_def emptyPlanner_def initialState_def idleDrag_def
      handlePointerDown_def handlePointerEnter_def handlePointerUp_def pushHistory_def
      store_addBlock_def mutateBlocks_def addBlockTo_def createBlock_def generateId_def fixedEnv_def cellKey_def showInt_def showNat.simps
      toString36.simps digit36_def digit10_def conflict_def blockOf_def Let_def)

section \<open>Painting and erasing cells of the legacy grid\<close>

lemma lookup_updateCell:
  "lookupCell (updateCell d c f s) d c =
     (case f (lookupCell s d c) of None \<Rightarrow> None
      | Some u \<Rightarrow> if keyCount u = 0 then None else Some u)"
  by (auto simp: lookupCell_def updateCell_def Let_def update_conv' delete_conv'
      split: option.splits)

lemma paint_lookup:
  "lookupCell (paintCell d c b s) d c = paintUpdater b (lookupCell s d c)"
  by (auto simp: paintCell_def lookup_updateCell paintUpdater_def Let_def keyCount_def
      emptyCell_def split: option.splits)

text \<open>
  Claim C3.  Painting three pairwise distinct activities \<open>A\<close>, \<open>B\<close>, \<open>C\<close> onto a cell whose
  execute slot is empty (the cell is absent, or its \<open>execute\<close> is falsy) yields a cell with
  \<open>execute = A\<close> and \<open>overlay = C\<close>; \<open>B\<close> leaves no trace.  An activity id is a non-empty
  string (every id the program makes is: the built-in ids, \<open>user_...\<close>, \<open>voice_...\<close>,
  \<open>temp_...\<close>); the test \<open>!next.execute\<close> of the source takes the empty string for an empty
  slot.
\<close>

theorem paint_three_activities:
  assumes "distinct [A, B, C]" and "A \<noteq> []"
    and "case lookupCell s d c of None \<Rightarrow> True | Some cell \<Rightarrow> \<not> truthy (readProp (execute cell))"
  shows "\<exists>cell. lookupCell (paintCell d c C (paintCell d c B (paintCell d c A s))) d c = Some cell
           \<and> execute cell = Val A \<and> overlay cell = Val C \<and> overlay cell \<noteq> Val B"
  using assms
  by (auto simp: paint_lookup paintUpdater_def Let_def emptyCell_def split: option.splits)

theorem paint_three_activities_witness:
  "distinct [''work'', ''rest'', ''hobby''] \<and> ''work'' \<noteq> [] \<and>
   (\<exists>cell. lookupCell (paintCell ''2024-01-01'' ''2024-01-01|06|0'' ''hobby''
              (paintCell ''2024-01-01'' ''2024-01-01|06|0'' ''rest''
                (paintCell ''2024-01-01'' ''2024-01-01|06|0'' ''work'' [])))
              ''2024-01-01'' ''2024-01-01|06|0'' = Some cell
           \<and> execute cell = Val ''work'' \<and> overlay cell = Val ''hobby''
           \<and> overlay cell \<noteq> Val ''rest'')"
proof -
  have d: "distinct [''work'', ''rest'', ''hobby'']" by simp
  have n: "''work'' \<noteq> []" by simp
  have e: "case lookupCell [] ''2024-01-01'' ''2024-01-01|06|0'' of None \<Rightarrow> True
           | Some cell \<Rightarrow> \<not> truthy (readProp (execute cell))"
    by (simp add: lookupCell_def)
  show ?thesis
    using d n paint_three_activities [OF d n e] by blast
qed

text \<open>
  Claim C4.  Painting activity \<open>A\<close> onto a cell whose execute slot already holds \<open>A\<close> leaves
  the day store unchanged: the store after the paint equals the store before it, so no
  overlay is written and no other property of the cell changes.
\<close>

theorem paint_same_activity_unchanged:
  assumes "lookupCell s d c = Some cell" and "execute cell = Val A"
  shows "paintCell d c A s = s"
proof -
  from assms(1) obtain g where g: "map_of s d = Some g" "map_of g c = Some cell"
    by (auto simp: lookupCell_def split: option.splits)
  have u: "paintUpdater A (Some cell) = Some cell"
    using assms(2) by (cases "A = []") (auto simp: paintUpdater_def Let_def)
  have k: "keyCount cell \<noteq> 0"
    using assms(2) by (simp add: keyCount_def)
  show ?thesis
    using g u k by (simp add: paintCell_def updateCell_def Let_def update_triv)
qed

theorem paint_same_activity_unchanged_witness:
  "paintCell ''2024-01-01'' ''2024-01-01|06|0'' ''work''
     [(''2024-01-01'', [(''2024-01-01|06|0'',
        \<lparr>execute = Val ''work'', overlay = Val ''rest'', indicator = Absent, memos = Absent\<rparr>)])]
   = [(''2024-01-01'', [(''2024-01-01|06|0'',
        \<lparr>execute = Val ''work'', overlay = Val ''rest'', indicator = Absent, memos = Absent\<rparr>)])]"
proof -
  have l: "lookupCell [(''2024-01-01'', [(''2024-01-01|06|0'',
        \<lparr>execute = Val ''work'', overlay = Val ''rest'', indicator = Absent, memos = Absent\<rparr>)])]
      ''2024-01-01'' ''2024-01-01|06|0''
    = Some \<lparr>execute = Val ''work'', overlay = Val ''rest'', indicator = Absent, memos = Absent\<rparr>"
    by (simp add: lookupCell_def)
  have e: "execute \<lparr>execute = Val ''work'', overlay = Val ''rest'', indicator = Absent,
      memos = Absent\<rparr> = Val ''work''"
    by simp
  show ?thesis
    by (rule paint_same_activity_unchanged [OF l e])
qed

text \<open>
  What \<open>eraseCell\<close> does.  It deletes the \<open>execute\<close> and \<open>overlay\<close> properties of the cell
  and nothing else: the indicator (which has its own operation, \<open>deleteIndicator\<close>) and the
  memos stay.  A cell on which no property remains after the erase is removed from the
  store; an absent cell stays absent.
\<close>

lemma eraseCell_clears_slots:
  "lookupCell (eraseCell d c s) d c =
     (case lookupCell s d c of
        None \<Rightarrow> None
      | Some cell \<Rightarrow>
          if indicator cell = Absent \<and> memos cell = Absent then None
          else Some (cell\<lparr>execute := Absent, overlay := Absent\<rparr>))"
  by (auto simp: eraseCell_def lookup_updateCell eraseUpdater_def keyCount_def
      split: option.splits)

text \<open>
  Claim C5.  Erasing a cell is said to clear the \<open>execute\<close> and \<open>overlay\<close> slots and the
  indicator, and to remove from the store a cell that has no data left.  This is also what
  section 4.2 of the project's README documents for \<open>eraseCell\<close> (\<open>eraseCell_readme\<close>:
  delete \<open>execute\<close>, \<open>overlay\<close> and \<open>indicator\<close>, then drop the cell when no slot, no
  indicator and no memo remains).  The \<open>eraseCell\<close> of \<open>App.old.tsx\<close> does not do it: on the
  cell \<open>2024-01-01|06|0\<close> painted with \<open>work\<close> and carrying the indicator \<open>wake 06:00\<close>, it
  leaves the cell in the store, with the indicator on it.
\<close>

theorem eraseCell_keeps_indicator:
  "lookupCell
     (eraseCell ''2024-01-01'' ''2024-01-01|06|0''
        [(''2024-01-01'', [(''2024-01-01|06|0'',
           \<lparr>execute = Val ''work'', overlay = Absent,
            indicator = Val \<lparr>label = ''wake'', timeText = ''06:00''\<rparr>, memos = Absent\<rparr>)])])
     ''2024-01-01'' ''2024-01-01|06|0''
   = Some \<lparr>execute = Absent, overlay = Absent,
            indicator = Val \<lparr>label = ''wake'', timeText = ''06:00''\<rparr>, memos = Absent\<rparr>"
  by (simp add: eraseCell_def updateCell_def eraseUpdater_def keyCount_def lookupCell_def)

text \<open>
  On the same cell the documented \<open>eraseCell\<close> returns \<open>null\<close>: the cell is to be removed.
\<close>

lemma eraseCell_readme_removes:
  "eraseCell_readme
     \<lparr>execute = Val ''work'', overlay = Absent,
      indicator = Val \<lparr>label = ''wake'', timeText = ''06:00''\<rparr>, memos = Absent\<rparr> = None"
  by (simp add: eraseCell_readme_def)

text \<open>
  The removal in \<open>updateCell\<close> is by properties, not by data.  \<open>deepCloneGrid\<close> gives every cell it copies
  an \<open>indicator\<close> and a \<open>memos\<close> property, holding \<open>undefined\<close> when the cell had none; undo
  puts such a copy into the store.  Erasing a painted cell after a snapshot and an undo
  leaves an entry whose four properties hold no data.
\<close>

lemma eraseCell_after_undo:
  "lookupCell
     (eraseCell ''2024-01-01'' ''2024-01-01|06|0''
        (dayStore (onUndo (pushSnapshot
           ((initialApp ''2024-01-01'' ''2023-12-31'')
              \<lparr>dayStore := [(''2024-01-01'',
                   [(''2024-01-01|06|0'', emptyCell\<lparr>execute := Val ''work''\<rparr>)])]\<rparr>)))))
     ''2024-01-01'' ''2024-01-01|06|0''
   = Some \<lparr>execute = Absent, overlay = Absent, indicator = Undefined, memos = Undefined\<rparr>"
  by code_simp

section \<open>Undo and redo\<close>


lemma undo_blocks_nth:
  "0 < n \<Longrightarrow> n \<le> length (past s) \<Longrightarrow>
     blocks ((undo ^^ n) s) = past s ! (length (past s) - n)"
proof (induction n arbitrary: s)
  case 0
  then show ?case by simp
next
  case (Suc n)
  have ne: "past s \<noteq> []" using Suc.prems by auto
  have step: "(undo ^^ Suc n) s = (undo ^^ n) (undo s)"
    by (simp add: funpow_swap1)
  show ?case
  proof (cases "n = 0")
    case True
    then show ?thesis using ne by (simp add: undo_def last_conv_nth)
  next
    case False
    have p: "past (undo s) = butlast (past s)" using ne by (simp add: undo_def)
    have "blocks ((undo ^^ n) (undo s)) = past (undo s) ! (length (past (undo s)) - n)"
      using False Suc.prems by (intro Suc.IH) (auto simp: p)
    also have "\<dots> = past s ! (length (past s) - Suc n)"
      using False Suc.prems by (simp add: p nth_butlast)
    finally show ?thesis using step by simp
  qed
qed

lemma snapshotThenMutate_snoc:
  "snapshotThenMutate (fs @ [f]) s = mutateBlocks f (pushHistory (snapshotThenMutate fs s))"
  by (simp add: snapshotThenMutate_def)

lemma snapshotThenMutate_past:
  "length fs \<le> 50 \<Longrightarrow>
     length fs \<le> length (past (snapshotThenMutate fs s)) \<and>
     (if fs = [] then blocks (snapshotThenMutate fs s) = blocks s
      else past (snapshotThenMutate fs s) !
             (length (past (snapshotThenMutate fs s)) - length fs) = blocks s)"
proof (induction fs rule: rev_induct)
  case Nil
  then show ?case by (simp add: snapshotThenMutate_def)
next
  case (snoc f fs)
  define t where "t = snapshotThenMutate fs s"
  define p where "p = past t @ [blocks t]"
  have len: "length fs \<le> length (past t)" and n49: "length fs \<le> 49"
    using snoc unfolding t_def by auto
  have old: "p ! (length (past t) - length fs) = blocks s"
  proof (cases "fs = []")
    case True
    with snoc show ?thesis unfolding p_def t_def by (simp add: snapshotThenMutate_def)
  next
    case False
    then have "length (past t) - length fs < length (past t)"
      using len by (cases fs) auto
    then show ?thesis
      using snoc False unfolding p_def t_def by (simp add: nth_append)
  qed
  have past': "past (snapshotThenMutate (fs @ [f]) s) = (if length p > 50 then tl p else p)"
    unfolding snapshotThenMutate_snoc t_def [symmetric] p_def
    by (simp add: mutateBlocks_def pushHistory_def Let_def)
  show ?case
  proof (cases "length p > 50")
    case True
    have lp: "length p = Suc (length (past t))" by (simp add: p_def)
    have "tl p ! (length (tl p) - Suc (length fs)) = p ! (length (past t) - length fs)"
      using True n49 lp by (simp add: nth_tl Suc_diff_Suc)
    then show ?thesis
      using True old n49 lp by (simp add: past')
  next
    case False
    have lp: "length p = Suc (length (past t))" by (simp add: p_def)
    then show ?thesis
      using False old len by (simp add: past')
  qed
qed

lemma redo_undo: "past s \<noteq> [] \<Longrightarrow> redo (undo s) = s"
  by (simp add: undo_def redo_def)

lemma undo_blocks_const:
  "blocks s = e \<Longrightarrow> set (past s) \<subseteq> {e} \<Longrightarrow> blocks ((undo ^^ n) s) = e"
proof (induction n arbitrary: s)
  case 0
  then show ?case by simp
next
  case (Suc n)
  have b: "blocks (undo s) = e"
    using Suc.prems by (cases "past s = []") (auto simp: undo_def dest: last_in_set)
  have p: "set (past (undo s)) \<subseteq> {e}"
    using Suc.prems by (auto simp: undo_def dest: in_set_butlastD)
  have "(undo ^^ Suc n) s = (undo ^^ n) (undo s)"
    by (simp add: funpow_swap1)
  then show ?case using Suc.IH [OF b p] by simp
qed

lemma snapshotThenMutate_replicate_Suc:
  "snapshotThenMutate (replicate (Suc n) f) s =
     mutateBlocks f (pushHistory (snapshotThenMutate (replicate n f) s))"
proof -
  have "replicate (Suc n) f = replicate n f @ [f]"
    by (simp add: replicate_append_same)
  then show ?thesis
    by (simp only: snapshotThenMutate_snoc)
qed

lemma idle_run_past:
  assumes "blocks s = e" and "past s = [b]" and "f e = e"
  shows "n \<le> 50 \<Longrightarrow>
     blocks (snapshotThenMutate (replicate n f) s) = e \<and>
     past (snapshotThenMutate (replicate n f) s) =
       (if n = 50 then replicate 50 e else b # replicate n e)"
proof (induction n)
  case 0
  then show ?case using assms by (simp add: snapshotThenMutate_def)
next
  case (Suc n)
  then have IH: "blocks (snapshotThenMutate (replicate n f) s) = e"
    "past (snapshotThenMutate (replicate n f) s) = b # replicate n e"
    by auto
  have r: "e # replicate 49 e = replicate 50 e"
  proof -
    have "(50::nat) = Suc 49" by simp
    then show ?thesis by (simp only: replicate_Suc)
  qed
  show ?case
    unfolding snapshotThenMutate_replicate_Suc
    using Suc.prems assms(3)
    by (auto simp: mutateBlocks_def pushHistory_def Let_def IH replicate_append_same r)
qed

text \<open>
  Claim C7, with the cap of the store's history.  \<open>pushHistory\<close> keeps at most 50
  snapshots and evicts the oldest.  For every list of at most 50 mutations of the block
  collection, a snapshot taken before each, as many undos as there were snapshots restore
  the original block collection.  A redo right after an undo that had a snapshot to pop
  restores the whole state as it was before the undo.  Every new snapshot clears the redo
  stack, in the store (\<open>pushHistory\<close>) and in the legacy application (\<open>pushSnapshot\<close>).
\<close>

theorem history_undo_redo:
  "(length fs \<le> 50 \<longrightarrow>
      blocks ((undo ^^ length fs) (snapshotThenMutate fs s)) = blocks s) \<and>
   (past s \<noteq> [] \<longrightarrow> redo (undo s) = s) \<and>
   future (pushHistory s) = [] \<and>
   redoStack (pushSnapshot a) = []"
proof -
  have "blocks ((undo ^^ length fs) (snapshotThenMutate fs s)) = blocks s"
    if le: "length fs \<le> 50"
  proof (cases "fs = []")
    case True
    then show ?thesis by (simp add: snapshotThenMutate_def)
  next
    case False
    then have pos: "0 < length fs" by simp
    from snapshotThenMutate_past [OF le, of s] False
    have a: "length fs \<le> length (past (snapshotThenMutate fs s))"
      and b: "past (snapshotThenMutate fs s) !
             (length (past (snapshotThenMutate fs s)) - length fs) = blocks s"
      by auto
    show ?thesis using undo_blocks_nth [OF pos a] b by simp
  qed
  then show ?thesis
    by (simp add: redo_undo pushHistory_def pushSnapshot_def Let_def)
qed




theorem history_undo_redo_witness:
  "length [removeBlockFrom ''2024-01-01'' ''X''] \<le> 50 \<and>
   blocks ((undo ^^ length [removeBlockFrom ''2024-01-01'' ''X''])
     (snapshotThenMutate [removeBlockFrom ''2024-01-01'' ''X'']
        (initialState\<lparr>blocks :=
           [(''2024-01-01'', [blockOf ''X'' ''2024-01-01'' 360 420 ''work'' Execute])]\<rparr>)))
     = [(''2024-01-01'', [blockOf ''X'' ''2024-01-01'' 360 420 ''work'' Execute])] \<and>
   past (initialState\<lparr>past := [[]]\<rparr>) \<noteq> [] \<and>
   redo (undo (initialState\<lparr>past := [[]]\<rparr>)) = initialState\<lparr>past := [[]]\<rparr>"
proof -
  have l: "length [removeBlockFrom ''2024-01-01'' ''X''
      :: BlocksByDate \<Rightarrow> BlocksByDate] \<le> 50" by simp
  have p: "past (initialState\<lparr>past := [[]]\<rparr>) \<noteq> []" by simp
  show ?thesis
    using l p
      history_undo_redo [of "[removeBlockFrom ''2024-01-01'' ''X'']"
        "initialState\<lparr>blocks :=
           [(''2024-01-01'', [blockOf ''X'' ''2024-01-01'' 360 420 ''work'' Execute])]\<rparr>"]
      history_undo_redo [of "[]" "initialState\<lparr>past := [[]]\<rparr>"]
    by simp
qed

text \<open>
  Claim C7 as written speaks of every number of snapshots.  With 51 snapshots, each taken
  before a \<open>removeBlock\<close> of block \<open>X\<close>, the oldest one, the original block collection, has
  been evicted: 51 undos end at the collection as it was after the first removal, not at
  the original.
\<close>

theorem history_cap_counterexample:
  "blocks ((undo ^^ 51)
     (snapshotThenMutate (replicate 51 (removeBlockFrom ''2024-01-01'' ''X''))
        (initialState\<lparr>blocks :=
           [(''2024-01-01'', [blockOf ''X'' ''2024-01-01'' 360 420 ''work'' Execute])]\<rparr>)))
     = [(''2024-01-01'', [])] \<and>
   blocks ((undo ^^ 51)
     (snapshotThenMutate (replicate 51 (removeBlockFrom ''2024-01-01'' ''X''))
        (initialState\<lparr>blocks :=
           [(''2024-01-01'', [blockOf ''X'' ''2024-01-01'' 360 420 ''work'' Execute])]\<rparr>)))
     \<noteq> blocks (initialState\<lparr>blocks :=
           [(''2024-01-01'', [blockOf ''X'' ''2024-01-01'' 360 420 ''work'' Execute])]\<rparr>)"
proof -
  define s0 where "s0 = initialState\<lparr>blocks :=
           [(''2024-01-01'', [blockOf ''X'' ''2024-01-01'' 360 420 ''work'' Execute])]\<rparr>"
  define s1 where "s1 = mutateBlocks (removeBlockFrom ''2024-01-01'' ''X'') (pushHistory s0)"
  have b1: "blocks s1 = [(''2024-01-01'', [])]" and p1: "past s1 = [blocks s0]"
    by (simp_all add: s1_def s0_def mutateBlocks_def pushHistory_def initialState_def Let_def
        removeBlockFrom_def blockOf_def)
  have idle: "removeBlockFrom ''2024-01-01'' ''X'' [(''2024-01-01'', [])] = [(''2024-01-01'', [])]"
    by (simp add: removeBlockFrom_def)
  have "replicate 51 (removeBlockFrom ''2024-01-01'' ''X'') =
      removeBlockFrom ''2024-01-01'' ''X'' # replicate 50 (removeBlockFrom ''2024-01-01'' ''X'')"
  proof -
    have "(51::nat) = Suc 50" by simp
    then show ?thesis by (simp only: replicate_Suc)
  qed
  then have run: "snapshotThenMutate (replicate 51 (removeBlockFrom ''2024-01-01'' ''X'')) s0 =
      snapshotThenMutate (replicate 50 (removeBlockFrom ''2024-01-01'' ''X'')) s1"
    by (simp add: snapshotThenMutate_def s1_def)
  from idle_run_past [where f = "removeBlockFrom ''2024-01-01'' ''X''" and n = 50,
      OF b1 p1 idle]
  have e: "blocks (snapshotThenMutate (replicate 50 (removeBlockFrom ''2024-01-01'' ''X'')) s1)
      = [(''2024-01-01'', [])]"
    and q: "set (past (snapshotThenMutate (replicate 50 (removeBlockFrom ''2024-01-01'' ''X'')) s1))
      \<subseteq> {[(''2024-01-01'', [])]}"
    by auto
  have "blocks ((undo ^^ 51)
      (snapshotThenMutate (replicate 51 (removeBlockFrom ''2024-01-01'' ''X'')) s0))
      = [(''2024-01-01'', [])]"
    unfolding run by (rule undo_blocks_const [OF e q])
  then show ?thesis
    unfolding s0_def by simp
qed

section \<open>Resize and fine resize\<close>

lemma handleResize_unfold:
  assumes sel: "selectedSegment a = Some seg" and armed: "resizeArmed a"
  obtains base ns where
    "0 \<le> selStartCol ns" "selStartCol ns \<le> selEndCol ns" "selEndCol ns \<le> 5"
    "selectedSegment (handleResize side col a) = Some ns"
    "fineBoundsStore (handleResize side col a) =
       AList.update (segmentKey (curDateISO a) (startHour a) ns)
         \<lparr>startMinute = selStartCol ns * 10, endMinute = (selEndCol ns + 1) * 10\<rparr>
         (AList.delete (segmentKey (curDateISO a) (startHour a) base) (fineBoundsStore a))"
    "base = (case resizeState a of None \<Rightarrow> seg | Some r \<Rightarrow> rsBase r)"
    "selStartCol ns =
       max 0 (min 5 (if side = SideStart then min col (selEndCol base) else selStartCol base))"
    "selEndCol ns =
       max (selStartCol ns)
         (min 5 (if side = SideEnd then max col (selStartCol base) else selEndCol base))"
proof -
  define a1 where "a1 = (case resizeState a of
        None \<Rightarrow> pushSnapshot
                  (a\<lparr>resizeState := Some \<lparr>rsPointerId = - 1, rsSide = side, rsBase = seg\<rparr>\<rparr>)
      | Some r \<Rightarrow> a)"
  define base where "base = (case resizeState a1 of None \<Rightarrow> seg | Some r \<Rightarrow> rsBase r)"
  define nextStart where
    "nextStart = (if side = SideStart then min col (selEndCol base) else selStartCol base)"
  define nextEnd where
    "nextEnd = (if side = SideEnd then max col (selStartCol base) else selEndCol base)"
  define cs where "cs = max 0 (min 5 nextStart)"
  define ce where "ce = max cs (min 5 nextEnd)"
  define nextSeg where "nextSeg = base\<lparr>selStartCol := cs, selEndCol := ce\<rparr>"
  define claimed where "claimed =
     foldl (claimColumn (curDateISO a1) (jsRem (startHour a1 + selRow base) 24) base)
       (foldl (trimColumn (curDateISO a1) (jsRem (startHour a1 + selRow base) 24) base cs ce)
          (dayGrid a1) [0, 1, 2, 3, 4, 5])
       [cs..ce]"
  define fb where "fb =
     AList.update (segmentKey (curDateISO a1) (startHour a1) nextSeg)
       \<lparr>startMinute = cs * 10, endMinute = (ce + 1) * 10\<rparr>
       (AList.delete (segmentKey (curDateISO a1) (startHour a1) base) (fineBoundsStore a1))"
  have eq: "handleResize side col a =
      a1\<lparr>dayStore := AList.update (curDateISO a1) claimed (dayStore a1),
         fineBoundsStore := fb, selectedSegment := Some nextSeg\<rparr>"
    unfolding handleResize_def fb_def claimed_def nextSeg_def ce_def cs_def nextEnd_def
      nextStart_def base_def a1_def
    by (simp only: sel armed option.case not_True_eq_False if_False Let_def)
  have same: "curDateISO a1 = curDateISO a" "startHour a1 = startHour a"
    "fineBoundsStore a1 = fineBoundsStore a"
    by (cases "resizeState a"; simp add: a1_def pushSnapshot_def)+
  have bounds: "0 \<le> cs \<and> cs \<le> ce \<and> ce \<le> 5"
    unfolding cs_def ce_def by auto
  show thesis
  proof (rule that [of nextSeg base])
    show "0 \<le> selStartCol nextSeg" "selStartCol nextSeg \<le> selEndCol nextSeg"
      "selEndCol nextSeg \<le> 5"
      using bounds by (simp_all add: nextSeg_def)
    show "selectedSegment (handleResize side col a) = Some nextSeg"
      by (simp add: eq)
    show "fineBoundsStore (handleResize side col a) =
       AList.update (segmentKey (curDateISO a) (startHour a) nextSeg)
         \<lparr>startMinute = selStartCol nextSeg * 10, endMinute = (selEndCol nextSeg + 1) * 10\<rparr>
         (AList.delete (segmentKey (curDateISO a) (startHour a) base) (fineBoundsStore a))"
      by (simp add: eq fb_def same nextSeg_def)
    show "base = (case resizeState a of None \<Rightarrow> seg | Some r \<Rightarrow> rsBase r)"
      by (cases "resizeState a"; simp add: base_def a1_def pushSnapshot_def)
    show "selStartCol nextSeg =
       max 0 (min 5 (if side = SideStart then min col (selEndCol base) else selStartCol base))"
      by (simp add: nextSeg_def cs_def nextStart_def)
    show "selEndCol nextSeg =
       max (selStartCol nextSeg)
         (min 5 (if side = SideEnd then max col (selStartCol base) else selEndCol base))"
      by (simp add: nextSeg_def ce_def nextEnd_def)
  qed
qed

lemma handleResize_idle:
  assumes "selectedSegment a = None \<or> \<not> resizeArmed a"
  shows "handleResize side col a = a"
proof (cases "selectedSegment a")
  case None
  show ?thesis
    unfolding handleResize_def by (simp only: None option.case)
next
  case (Some seg)
  with assms have "resizeArmed a = False" by simp
  then show ?thesis
    unfolding handleResize_def by (simp only: Some option.case not_False_eq_True if_True)
qed

lemma fine_arith:
  fixes lo hi s0 e0 m :: int
  assumes "lo < hi" and "lo \<le> s0" and "s0 < e0" and "e0 \<le> hi"
  defines "ns \<equiv> min (max lo m) (hi - 1)"
  defines "ne \<equiv> max (min hi m) (lo + 1)"
  shows "lo \<le> ns \<and> ns < (if e0 \<le> ns then min hi (ns + 1) else e0)
           \<and> (if e0 \<le> ns then min hi (ns + 1) else e0) \<le> hi"
    and "lo \<le> s0 \<and> s0 < (if ne \<le> s0 then min hi (s0 + 1) else ne)
           \<and> (if ne \<le> s0 then min hi (s0 + 1) else ne) \<le> hi"
  using assms(1-4) unfolding ns_def ne_def by auto

lemma handleFineResizeApply_unfold:
  assumes sel: "selectedSegment a = Some seg"
    and ord: "selStartCol seg \<le> selEndCol seg"
    and prior: "case map_of (fineBoundsStore a) (segmentKey (curDateISO a) (startHour a) seg) of
        None \<Rightarrow> True | Some b \<Rightarrow> inWindow seg b"
    and key: "key = segmentKey (curDateISO a) (startHour a) seg"
    and bounds: "bounds = (case map_of (fineBoundsStore a) key of
        None \<Rightarrow> defaultFineBounds seg | Some b \<Rightarrow> b)"
    and snapped: "snapped = (if mode = ModeSnap then snap10 minute else minute)"
    and lo: "lo = selStartCol seg * 10"
    and hi: "hi = (selEndCol seg + 1) * 10"
    and nextStart: "nextStart =
        (if side = SideStart then min (max lo snapped) (hi - 1) else startMinute bounds)"
    and nextEnd0: "nextEnd0 =
        (if side = SideStart then endMinute bounds else max (min hi snapped) (lo + 1))"
  obtains fb where "inWindow seg fb"
    "handleFineResizeApply side minute mode a =
       a\<lparr>fineBoundsStore :=
           AList.update (segmentKey (curDateISO a) (startHour a) seg) fb (fineBoundsStore a)\<rparr>"
    "startMinute fb = nextStart"
    "endMinute fb = (if nextEnd0 \<le> nextStart then nextStart + 1 else nextEnd0)"
proof -
  note key_def = key and bounds_def = bounds and snapped_def = snapped and lo_def = lo
    and hi_def = hi and nextStart_def = nextStart and nextEnd0_def = nextEnd0
  define nextEnd where
    "nextEnd = (if nextEnd0 \<le> nextStart then min hi (nextStart + 1) else nextEnd0)"
  have eq: "handleFineResizeApply side minute mode a =
      a\<lparr>fineBoundsStore :=
          AList.update key \<lparr>startMinute = nextStart, endMinute = nextEnd\<rparr> (fineBoundsStore a)\<rparr>"
    unfolding handleFineResizeApply_def nextEnd_def nextEnd0_def nextStart_def hi_def lo_def
      snapped_def bounds_def key_def
    by (simp only: sel option.case Let_def)
  have lh: "lo < hi" using ord by (simp add: lo_def hi_def)
  have b: "lo \<le> startMinute bounds \<and> startMinute bounds < endMinute bounds
      \<and> endMinute bounds \<le> hi"
    using prior ord unfolding bounds_def key_def lo_def hi_def
    by (auto simp: defaultFineBounds_def inWindow_def split: option.splits)
  have b1: "lo \<le> startMinute bounds" and b2: "startMinute bounds < endMinute bounds"
    and b3: "endMinute bounds \<le> hi"
    using b by auto
  have v: "lo \<le> nextStart \<and> nextStart < nextEnd \<and> nextEnd \<le> hi"
  proof (cases "side = SideStart")
    case True
    have s: "nextStart = min (max lo snapped) (hi - 1)" and e: "nextEnd0 = endMinute bounds"
      using True by (simp_all add: nextStart_def nextEnd0_def)
    show ?thesis
      unfolding nextEnd_def s e by (rule fine_arith(1) [OF lh b1 b2 b3])
  next
    case False
    have s: "nextStart = startMinute bounds" and e: "nextEnd0 = max (min hi snapped) (lo + 1)"
      using False by (simp_all add: nextStart_def nextEnd0_def)
    show ?thesis
      unfolding nextEnd_def s e by (rule fine_arith(2) [OF lh b1 b2 b3])
  qed
  show thesis
  proof (rule that [of "\<lparr>startMinute = nextStart, endMinute = nextEnd\<rparr>"])
    show "inWindow seg \<lparr>startMinute = nextStart, endMinute = nextEnd\<rparr>"
      using v by (simp add: inWindow_def lo_def hi_def)
    show "handleFineResizeApply side minute mode a =
       a\<lparr>fineBoundsStore :=
           AList.update (segmentKey (curDateISO a) (startHour a) seg)
             \<lparr>startMinute = nextStart, endMinute = nextEnd\<rparr> (fineBoundsStore a)\<rparr>"
      using eq by (simp add: key_def)
    show "startMinute \<lparr>startMinute = nextStart, endMinute = nextEnd\<rparr> = nextStart"
      by simp
    show "endMinute \<lparr>startMinute = nextStart, endMinute = nextEnd\<rparr> =
        (if nextEnd0 \<le> nextStart then nextStart + 1 else nextEnd0)"
      using v by (auto simp: nextEnd_def)
  qed
qed

subsection \<open>The fine-bounds store stays valid\<close>

lemma showInt_col:
  "0 \<le> c \<Longrightarrow> c \<le> 5 \<Longrightarrow> showInt c = [digit10 (nat c)]"
  by (simp add: showInt_def showNat.simps)

lemma digit10_inj:
  "0 \<le> a \<Longrightarrow> a \<le> 5 \<Longrightarrow> 0 \<le> b \<Longrightarrow> b \<le> 5 \<Longrightarrow>
     digit10 (nat a) = digit10 (nat b) \<Longrightarrow> a = (b::int)"
proof -
  assume a: "0 \<le> a" "a \<le> 5" and b: "0 \<le> b" "b \<le> 5" and e: "digit10 (nat a) = digit10 (nat b)"
  from a have "a = 0 \<or> a = 1 \<or> a = 2 \<or> a = 3 \<or> a = 4 \<or> a = 5" by arith
  moreover from b have "b = 0 \<or> b = 1 \<or> b = 2 \<or> b = 3 \<or> b = 4 \<or> b = 5" by arith
  ultimately show ?thesis
    using e by (auto simp: digit10_def)
qed

lemma segmentKey_cols:
  assumes "validSeg s1" and "validSeg s2" and "segmentKey d1 h1 s1 = segmentKey d2 h2 s2"
  shows "selStartCol s1 = selStartCol s2 \<and> selEndCol s1 = selEndCol s2"
proof -
  have k: "rev (segmentKey d h s) =
      digit10 (nat (selEndCol s)) # CHR ''-'' # digit10 (nat (selStartCol s)) #
      rev (d @ ''|'' @ showInt (jsRem (h + selRow s) 24) @ ''|'' @ layerName (selLayer s) @ ''|'' @
           selActivityId s @ ''|'')"
    if "validSeg s" for d h s
    using that by (simp add: segmentKey_def validSeg_def showInt_col)
  from assms(3) have "rev (segmentKey d1 h1 s1) = rev (segmentKey d2 h2 s2)" by simp
  then have "digit10 (nat (selEndCol s1)) = digit10 (nat (selEndCol s2))"
    and "digit10 (nat (selStartCol s1)) = digit10 (nat (selStartCol s2))"
    unfolding k [OF assms(1)] k [OF assms(2)] by simp_all
  then show ?thesis
    using assms(1,2) by (auto simp: validSeg_def intro: digit10_inj)
qed

lemma inWindow_cols:
  "selStartCol s1 = selStartCol s2 \<Longrightarrow> selEndCol s1 = selEndCol s2 \<Longrightarrow>
     inWindow s1 fb = inWindow s2 fb"
  by (simp add: inWindow_def)

lemma fineStoreValid_update:
  assumes fs: "fineStoreValid fs" and seg: "validSeg seg" and fb: "inWindow seg fb"
  shows "fineStoreValid (AList.update (segmentKey d h seg) fb (AList.delete k fs))"
    and "fineStoreValid (AList.update (segmentKey d h seg) fb fs)"
proof -
  have *: "inWindow seg' fb'"
    if v: "validSeg seg'"
      and m: "((map_of fs')(segmentKey d h seg \<mapsto> fb)) (segmentKey d' h' seg') = Some fb'"
      and old: "\<And>key. map_of fs' key = Some fb' \<Longrightarrow> map_of fs key = Some fb'"
    for seg' fb' d' h' fs'
  proof (cases "segmentKey d' h' seg' = segmentKey d h seg")
    case True
    with m have "fb' = fb" by simp
    moreover from segmentKey_cols [OF v seg True]
    have "inWindow seg' fb = inWindow seg fb" by (intro inWindow_cols) auto
    ultimately show ?thesis using fb by simp
  next
    case False
    with m have "map_of fs' (segmentKey d' h' seg') = Some fb'" by simp
    then have "map_of fs (segmentKey d' h' seg') = Some fb'" by (rule old)
    with fs v show ?thesis unfolding fineStoreValid_def by blast
  qed
  show "fineStoreValid (AList.update (segmentKey d h seg) fb (AList.delete k fs))"
    unfolding fineStoreValid_def update_conv'
    by (intro allI impI, elim conjE, erule *, assumption)
      (auto simp: delete_conv' split: if_splits)
  show "fineStoreValid (AList.update (segmentKey d h seg) fb fs)"
    unfolding fineStoreValid_def update_conv'
    by (intro allI impI, elim conjE, erule *, assumption) auto
qed

lemma expandStart_bounds:
  "expandStart g d h l act sc \<le> sc \<and> (0 \<le> sc \<longrightarrow> 0 \<le> expandStart g d h l act sc)"
proof (induction g d h l act sc rule: expandStart.induct)
  case (1 g d hour l actId sc)
  show ?case
    by (subst (1 2) expandStart.simps) (use 1 in auto)
qed

lemma expandEnd_bounds:
  "ec \<le> expandEnd g d h l act ec \<and> (ec \<le> 5 \<longrightarrow> expandEnd g d h l act ec \<le> 5)"
proof (induction g d h l act ec rule: expandEnd.induct)
  case (1 g d hour l actId ec)
  show ?case
    by (subst (1 2) expandEnd.simps) (use 1 in auto)
qed

lemma segmentOfLayer_valid:
  assumes "0 \<le> col" and "col \<le> 5" and "segmentOfLayer a hour col l = Some seg"
  shows "validSeg seg"
proof -
  from assms(3) obtain act where
    seg: "seg = \<lparr>selRow = jsRem (hour - startHour a + 24) 24,
                 selStartCol = expandStart (dayGrid a) (curDateISO a) hour l act col,
                 selEndCol = expandEnd (dayGrid a) (curDateISO a) hour l act col,
                 selLayer = l, selActivityId = act\<rparr>"
    by (auto simp: segmentOfLayer_def split: option.splits if_splits)
  from expandStart_bounds [of "dayGrid a" "curDateISO a" hour l act col]
    expandEnd_bounds [of col "dayGrid a" "curDateISO a" hour l act]
  show ?thesis
    using assms(1,2) by (simp add: seg validSeg_def)
qed

lemma findSegmentAtCell_valid:
  assumes "0 \<le> col" and "col \<le> 5" and "findSegmentAtCell a hour col = Some seg"
  shows "validSeg seg"
  using assms segmentOfLayer_valid [OF assms(1,2)]
  by (auto simp: findSegmentAtCell_def split: option.splits)

lemma resizeInv_handleResize:
  assumes "resizeInv a"
  shows "resizeInv (handleResize side col a)"
proof (cases "selectedSegment a = None \<or> \<not> resizeArmed a")
  case True
  then show ?thesis using assms by (simp add: handleResize_idle)
next
  case False
  then obtain seg where sel: "selectedSegment a = Some seg" and armed: "resizeArmed a"
    by auto
  from handleResize_unfold [OF sel armed, of side col]
  obtain base ns where ns: "0 \<le> selStartCol ns" "selStartCol ns \<le> selEndCol ns"
      "selEndCol ns \<le> 5"
    and s: "selectedSegment (handleResize side col a) = Some ns"
    and f: "fineBoundsStore (handleResize side col a) =
       AList.update (segmentKey (curDateISO a) (startHour a) ns)
         \<lparr>startMinute = selStartCol ns * 10, endMinute = (selEndCol ns + 1) * 10\<rparr>
         (AList.delete (segmentKey (curDateISO a) (startHour a) base) (fineBoundsStore a))"
    by blast
  have v: "validSeg ns" using ns by (simp add: validSeg_def)
  have w: "inWindow ns \<lparr>startMinute = selStartCol ns * 10, endMinute = (selEndCol ns + 1) * 10\<rparr>"
    using ns by (simp add: inWindow_def)
  from assms have "fineStoreValid (fineBoundsStore a)" by (simp add: resizeInv_def)
  from fineStoreValid_update(1) [OF this v w]
  show ?thesis
    unfolding resizeInv_def f s using v by simp
qed

lemma resizeInv_handleFineResizeApply:
  assumes "resizeInv a"
  shows "resizeInv (handleFineResizeApply side minute mode a)"
proof (cases "selectedSegment a")
  case None
  then show ?thesis using assms by (simp add: handleFineResizeApply_def)
next
  case (Some seg)
  from assms Some have v: "validSeg seg" and fs: "fineStoreValid (fineBoundsStore a)"
    by (simp_all add: resizeInv_def)
  have ord: "selStartCol seg \<le> selEndCol seg" using v by (simp add: validSeg_def)
  have prior: "case map_of (fineBoundsStore a) (segmentKey (curDateISO a) (startHour a) seg) of
        None \<Rightarrow> True | Some b \<Rightarrow> inWindow seg b"
    using fs v unfolding fineStoreValid_def by (auto split: option.splits)
  from handleFineResizeApply_unfold [OF Some ord prior refl refl refl refl refl refl refl,
      of side minute mode]
  obtain fb where w: "inWindow seg fb"
    and e: "handleFineResizeApply side minute mode a =
       a\<lparr>fineBoundsStore :=
           AList.update (segmentKey (curDateISO a) (startHour a) seg) fb (fineBoundsStore a)\<rparr>"
    by blast
  from fineStoreValid_update(2) [OF fs v w]
  show ?thesis
    unfolding resizeInv_def e using assms by (simp add: resizeInv_def)
qed

lemma resizeInv_step: "resizeInv a \<Longrightarrow> resizeInv (legacyStep a op)"
proof (cases op)
  case (OpSelect hour col)
  assume "resizeInv a"
  then show ?thesis
    using findSegmentAtCell_valid [of col a hour]
    by (auto simp: OpSelect resizeInv_def selectAtCell_def)
next
  case (OpResize side col)
  assume "resizeInv a"
  then show ?thesis by (simp add: OpResize resizeInv_handleResize)
next
  case (OpFineApply side minute mode)
  assume "resizeInv a"
  then show ?thesis by (simp add: OpFineApply resizeInv_handleFineResizeApply)
qed (auto simp: resizeInv_def pushSnapshot_def onUndo_def onRedo_def restoreSnapshot_def
      handleArmResize_def resizePointerUp_def)

lemma resizeInv_run: "resizeInv (legacyRun d w ops)"
proof -
  have "resizeInv a \<Longrightarrow> resizeInv (foldl legacyStep a ops)" for a
    by (induction ops arbitrary: a) (simp_all add: resizeInv_step)
  moreover have "resizeInv (initialApp d w)"
    by (simp add: resizeInv_def initialApp_def fineStoreValid_def)
  ultimately show ?thesis by (simp add: legacyRun_def)
qed

text \<open>
  Claim C8.  Every resize commit yields a span with \<open>endMin > startMin\<close>.  In every state
  \<open>a\<close> that a sequence of the modelled operations reaches from the initial state, with a
  segment \<open>seg\<close> selected:

  \<^item> a coarse resize (the segment being armed), from the base segment of the gesture, moves
    the dragged side to \<open>col\<close> but not past the other side, clamps the start into \<open>[0, 5]\<close>
    and the end into \<open>[start, 5]\<close>, selects the segment with these columns, and stores for
    it the fine bounds \<open>[startCol * 10, (endCol + 1) * 10)\<close>, a span of at least 10 minutes;

  \<^item> a fine-resize apply, with \<open>m\<close> the requested minute (rounded to the nearest 10 in snap
    mode), \<open>[lo, hi)\<close> the window of the segment and \<open>b\<close> the bounds stored so far (the whole
    window when there are none), stores the start \<open>s0 = min (max lo m) (hi - 1)\<close> and the
    end of \<open>b\<close> when the start side is moved, the start of \<open>b\<close> and the end
    \<open>max (min hi m) (lo + 1)\<close> when the end side is moved; an end \<open>e0\<close> that would not
    exceed the start \<open>s0\<close> is replaced by \<open>s0 + 1\<close>, a span of one minute, and nothing is
    rejected.  The stored bounds satisfy
    \<open>startCol * 10 \<le> startMinute < endMinute \<le> (endCol + 1) * 10\<close>.
\<close>

theorem resize_commit_valid:
  assumes run: "a = legacyRun d w ops" and sel: "selectedSegment a = Some seg"
  shows
    "(let base = (case resizeState a of None \<Rightarrow> seg | Some r \<Rightarrow> rsBase r);
          key = segmentKey (curDateISO a) (startHour a) seg;
          b = (case map_of (fineBoundsStore a) key of
                 None \<Rightarrow> defaultFineBounds seg | Some x \<Rightarrow> x);
          m = (if mode = ModeSnap then snap10 minute else minute);
          lo = selStartCol seg * 10;
          hi = (selEndCol seg + 1) * 10;
          s0 = (if side' = SideStart then min (max lo m) (hi - 1) else startMinute b);
          e0 = (if side' = SideStart then endMinute b else max (min hi m) (lo + 1))
      in (resizeArmed a \<longrightarrow>
            (\<exists>ns fb. selectedSegment (handleResize side col a) = Some ns \<and>
               selStartCol ns =
                 max 0 (min 5 (if side = SideStart then min col (selEndCol base)
                               else selStartCol base)) \<and>
               selEndCol ns =
                 max (selStartCol ns)
                   (min 5 (if side = SideEnd then max col (selStartCol base)
                           else selEndCol base)) \<and>
               0 \<le> selStartCol ns \<and> selStartCol ns \<le> selEndCol ns \<and> selEndCol ns \<le> 5 \<and>
               map_of (fineBoundsStore (handleResize side col a))
                 (segmentKey (curDateISO a) (startHour a) ns) = Some fb \<and>
               startMinute fb = selStartCol ns * 10 \<and>
               endMinute fb = (selEndCol ns + 1) * 10 \<and>
               startMinute fb + 10 \<le> endMinute fb)) \<and>
         (\<exists>fb. map_of (fineBoundsStore (handleFineResizeApply side' minute mode a)) key
                  = Some fb \<and>
            startMinute fb = s0 \<and>
            endMinute fb = (if e0 \<le> s0 then s0 + 1 else e0) \<and>
            lo \<le> startMinute fb \<and> startMinute fb < endMinute fb \<and> endMinute fb \<le> hi))"
proof -
  define base where "base = (case resizeState a of None \<Rightarrow> seg | Some r \<Rightarrow> rsBase r)"
  define key where "key = segmentKey (curDateISO a) (startHour a) seg"
  define b where "b = (case map_of (fineBoundsStore a) key of
                 None \<Rightarrow> defaultFineBounds seg | Some x \<Rightarrow> x)"
  define m where "m = (if mode = ModeSnap then snap10 minute else minute)"
  define lo where "lo = selStartCol seg * 10"
  define hi where "hi = (selEndCol seg + 1) * 10"
  define s0 where "s0 = (if side' = SideStart then min (max lo m) (hi - 1) else startMinute b)"
  define e0 where "e0 = (if side' = SideStart then endMinute b else max (min hi m) (lo + 1))"
  have coarse: "\<exists>ns fb. selectedSegment (handleResize side col a) = Some ns \<and>
               selStartCol ns =
                 max 0 (min 5 (if side = SideStart then min col (selEndCol base)
                               else selStartCol base)) \<and>
               selEndCol ns =
                 max (selStartCol ns)
                   (min 5 (if side = SideEnd then max col (selStartCol base)
                           else selEndCol base)) \<and>
               0 \<le> selStartCol ns \<and> selStartCol ns \<le> selEndCol ns \<and> selEndCol ns \<le> 5 \<and>
               map_of (fineBoundsStore (handleResize side col a))
                 (segmentKey (curDateISO a) (startHour a) ns) = Some fb \<and>
               startMinute fb = selStartCol ns * 10 \<and>
               endMinute fb = (selEndCol ns + 1) * 10 \<and>
               startMinute fb + 10 \<le> endMinute fb"
    if armed: "resizeArmed a"
  proof -
    from handleResize_unfold [OF sel armed, of side col]
    obtain base' ns where ns: "0 \<le> selStartCol ns" "selStartCol ns \<le> selEndCol ns"
        "selEndCol ns \<le> 5"
      and s: "selectedSegment (handleResize side col a) = Some ns"
      and f: "fineBoundsStore (handleResize side col a) =
         AList.update (segmentKey (curDateISO a) (startHour a) ns)
           \<lparr>startMinute = selStartCol ns * 10, endMinute = (selEndCol ns + 1) * 10\<rparr>
           (AList.delete (segmentKey (curDateISO a) (startHour a) base') (fineBoundsStore a))"
      and bs: "base' = (case resizeState a of None \<Rightarrow> seg | Some r \<Rightarrow> rsBase r)"
      and cs: "selStartCol ns =
         max 0 (min 5 (if side = SideStart then min col (selEndCol base') else selStartCol base'))"
      and ce: "selEndCol ns =
         max (selStartCol ns)
           (min 5 (if side = SideEnd then max col (selStartCol base') else selEndCol base'))"
      by blast
    have bb: "base' = base" by (simp only: bs base_def)
    have look: "map_of (fineBoundsStore (handleResize side col a))
          (segmentKey (curDateISO a) (startHour a) ns) =
        Some \<lparr>startMinute = selStartCol ns * 10, endMinute = (selEndCol ns + 1) * 10\<rparr>"
      by (simp add: f update_conv')
    have fb: "startMinute \<lparr>startMinute = selStartCol ns * 10,
          endMinute = (selEndCol ns + 1) * 10\<rparr> = selStartCol ns * 10"
      "endMinute \<lparr>startMinute = selStartCol ns * 10,
          endMinute = (selEndCol ns + 1) * 10\<rparr> = (selEndCol ns + 1) * 10"
      "startMinute \<lparr>startMinute = selStartCol ns * 10,
          endMinute = (selEndCol ns + 1) * 10\<rparr> + 10 \<le>
       endMinute \<lparr>startMinute = selStartCol ns * 10,
          endMinute = (selEndCol ns + 1) * 10\<rparr>"
      using ns(2) by simp_all
    from s cs [unfolded bb] ce [unfolded bb] ns look fb show ?thesis
      by blast
  qed
  have fine: "\<exists>fb. map_of (fineBoundsStore (handleFineResizeApply side' minute mode a)) key
                  = Some fb \<and>
            startMinute fb = s0 \<and>
            endMinute fb = (if e0 \<le> s0 then s0 + 1 else e0) \<and>
            lo \<le> startMinute fb \<and> startMinute fb < endMinute fb \<and> endMinute fb \<le> hi"
  proof -
    have inv: "resizeInv a" unfolding run by (rule resizeInv_run)
    with sel have v: "validSeg seg" and fs: "fineStoreValid (fineBoundsStore a)"
      by (simp_all add: resizeInv_def)
    have ord: "selStartCol seg \<le> selEndCol seg" using v by (simp add: validSeg_def)
    have prior: "case map_of (fineBoundsStore a) (segmentKey (curDateISO a) (startHour a) seg) of
          None \<Rightarrow> True | Some b \<Rightarrow> inWindow seg b"
      using fs v unfolding fineStoreValid_def by (auto split: option.splits)
    from handleFineResizeApply_unfold
      [OF sel ord prior key_def b_def m_def lo_def hi_def s0_def e0_def]
    obtain fb where w: "inWindow seg fb"
      and e: "handleFineResizeApply side' minute mode a =
         a\<lparr>fineBoundsStore :=
             AList.update (segmentKey (curDateISO a) (startHour a) seg) fb (fineBoundsStore a)\<rparr>"
      and st: "startMinute fb = s0"
      and en: "endMinute fb = (if e0 \<le> s0 then s0 + 1 else e0)"
      by blast
    have look: "map_of (fineBoundsStore (handleFineResizeApply side' minute mode a)) key = Some fb"
      by (simp add: e key_def update_conv')
    have win: "lo \<le> startMinute fb \<and> startMinute fb < endMinute fb \<and> endMinute fb \<le> hi"
      using w by (simp add: inWindow_def lo_def hi_def)
    show ?thesis
      using look st en win by (intro exI [of _ fb]) blast
  qed
  have "(resizeArmed a \<longrightarrow>
            (\<exists>ns fb. selectedSegment (handleResize side col a) = Some ns \<and>
               selStartCol ns =
                 max 0 (min 5 (if side = SideStart then min col (selEndCol base)
                               else selStartCol base)) \<and>
               selEndCol ns =
                 max (selStartCol ns)
                   (min 5 (if side = SideEnd then max col (selStartCol base)
                           else selEndCol base)) \<and>
               0 \<le> selStartCol ns \<and> selStartCol ns \<le> selEndCol ns \<and> selEndCol ns \<le> 5 \<and>
               map_of (fineBoundsStore (handleResize side col a))
                 (segmentKey (curDateISO a) (startHour a) ns) = Some fb \<and>
               startMinute fb = selStartCol ns * 10 \<and>
               endMinute fb = (selEndCol ns + 1) * 10 \<and>
               startMinute fb + 10 \<le> endMinute fb)) \<and>
         (\<exists>fb. map_of (fineBoundsStore (handleFineResizeApply side' minute mode a)) key
                  = Some fb \<and>
            startMinute fb = s0 \<and>
            endMinute fb = (if e0 \<le> s0 then s0 + 1 else e0) \<and>
            lo \<le> startMinute fb \<and> startMinute fb < endMinute fb \<and> endMinute fb \<le> hi)"
    using coarse fine by blast
  then show ?thesis
    unfolding Let_def base_def key_def b_def m_def lo_def hi_def s0_def e0_def .
qed

theorem resize_commit_valid_witness:
  "selectedSegment (legacyRun ''2024-01-01'' ''2023-12-31''
       [OpPaint 6 1 ''work'', OpPaint 6 2 ''work'', OpPaint 6 3 ''work'', OpSelect 6 2, OpArm,
        OpFineApply SideEnd 20 ModeMinute]) =
     Some \<lparr>selRow = 0, selStartCol = 1, selEndCol = 3, selLayer = GExecute,
           selActivityId = ''work''\<rparr> \<and>
   resizeArmed (legacyRun ''2024-01-01'' ''2023-12-31''
       [OpPaint 6 1 ''work'', OpPaint 6 2 ''work'', OpPaint 6 3 ''work'', OpSelect 6 2, OpArm,
        OpFineApply SideEnd 20 ModeMinute]) \<and>
   (\<exists>ns fb. selectedSegment (handleResize SideEnd 9 (legacyRun ''2024-01-01'' ''2023-12-31''
       [OpPaint 6 1 ''work'', OpPaint 6 2 ''work'', OpPaint 6 3 ''work'', OpSelect 6 2, OpArm,
        OpFineApply SideEnd 20 ModeMinute]))
         = Some ns \<and>
      selStartCol ns = 1 \<and> selEndCol ns = 5 \<and>
      map_of (fineBoundsStore (handleResize SideEnd 9 (legacyRun ''2024-01-01'' ''2023-12-31''
       [OpPaint 6 1 ''work'', OpPaint 6 2 ''work'', OpPaint 6 3 ''work'', OpSelect 6 2, OpArm,
        OpFineApply SideEnd 20 ModeMinute])))
        (segmentKey ''2024-01-01'' 6 ns) = Some fb \<and>
      startMinute fb = 10 \<and> endMinute fb = 60) \<and>
   (\<exists>fb. map_of (fineBoundsStore (handleFineResizeApply SideStart 25 ModeMinute
             (legacyRun ''2024-01-01'' ''2023-12-31''
       [OpPaint 6 1 ''work'', OpPaint 6 2 ''work'', OpPaint 6 3 ''work'', OpSelect 6 2, OpArm,
        OpFineApply SideEnd 20 ModeMinute])))
            (segmentKey ''2024-01-01'' 6 \<lparr>selRow = 0, selStartCol = 1, selEndCol = 3,
                                  selLayer = GExecute, selActivityId = ''work''\<rparr>) = Some fb \<and>
          startMinute fb = 25 \<and> endMinute fb = 26)"
proof -
  define seg0 where "seg0 = \<lparr>selRow = 0, selStartCol = 1, selEndCol = 3,
                                  selLayer = GExecute, selActivityId = ''work''\<rparr>"
  define a0 where "a0 = legacyRun ''2024-01-01'' ''2023-12-31''
       [OpPaint 6 1 ''work'', OpPaint 6 2 ''work'', OpPaint 6 3 ''work'', OpSelect 6 2, OpArm,
        OpFineApply SideEnd 20 ModeMinute]"
  have sel: "selectedSegment a0 = Some seg0"
    unfolding a0_def seg0_def by code_simp
  have armed: "resizeArmed a0"
    unfolding a0_def by code_simp
  have d: "curDateISO a0 = ''2024-01-01''" "startHour a0 = 6"
    unfolding a0_def by code_simp+
  have rs: "resizeState a0 = None"
    unfolding a0_def by code_simp
  have prior: "map_of (fineBoundsStore a0) (segmentKey ''2024-01-01'' 6 seg0) =
      Some \<lparr>startMinute = 10, endMinute = 20\<rparr>"
    unfolding a0_def seg0_def by code_simp
  have cols: "selStartCol seg0 = 1" "selEndCol seg0 = 3"
    by (simp_all add: seg0_def)
  from resize_commit_valid [OF a0_def sel, of ModeMinute 25 SideStart SideEnd 9]
  have coarse: "\<exists>ns fb. selectedSegment (handleResize SideEnd 9 a0) = Some ns \<and>
           selStartCol ns = 1 \<and> selEndCol ns = 5 \<and>
           map_of (fineBoundsStore (handleResize SideEnd 9 a0))
             (segmentKey ''2024-01-01'' 6 ns) = Some fb \<and>
           startMinute fb = 10 \<and> endMinute fb = 60"
    and fine: "\<exists>fb. map_of (fineBoundsStore (handleFineResizeApply SideStart 25 ModeMinute a0))
                 (segmentKey ''2024-01-01'' 6 seg0) = Some fb \<and>
           startMinute fb = 25 \<and> endMinute fb = 26"
    using armed by (auto simp: Let_def d rs prior cols)
  show ?thesis
    unfolding a0_def [symmetric] seg0_def [symmetric]
    using sel armed coarse fine by (intro conjI)
qed

section \<open>The segment compositor and unknown activities\<close>


lemma rowSegments_first:
  assumes "startMin b < endMin b"
  shows "\<exists>s \<in> set (rowSegments sh l b (startMin b)).
           blockId s = Some (bid b) \<and> segActivityId s = activityId b \<and> segLayer s = l"
proof -
  define m where "m = startMin b"
  have sc: "(m - m div 60 * 60) div 10 \<le> 5"
  proof -
    have "m - m div 60 * 60 = m mod 60" by (simp add: minus_div_mult_eq_mod)
    moreover have "m mod 60 < 60" by simp
    ultimately show ?thesis by simp
  qed
  show ?thesis
    using assms sc unfolding m_def
    by (subst rowSegments.simps) (simp add: Let_def)
qed

lemma processBlocks_member:
  assumes "b \<in> set bs" and "startMin b < endMin b"
  shows "\<exists>s \<in> set (processBlocks sh bs l).
           blockId s = Some (bid b) \<and> segActivityId s = activityId b \<and> segLayer s = l"
  using rowSegments_first [OF assms(2), of sh l] assms(1)
  by (auto simp: processBlocks_def)

lemma getActivityColor_unknown:
  "a \<notin> aid ` set acts \<Longrightarrow> getActivityColor a acts = ''#888888''"
proof -
  assume "a \<notin> aid ` set acts"
  then have "find (\<lambda>x. aid x = a) acts = None"
    by (auto simp: find_None_iff)
  then show ?thesis by (simp add: getActivityColor_def)
qed

lemma activityMap_unknown:
  "a \<notin> aid ` set acts \<Longrightarrow> activityMap acts a = None"
proof -
  have "a \<notin> aid ` set acts \<Longrightarrow> foldl (\<lambda>m x. m(aid x \<mapsto> x)) m0 acts a = m0 a" for m0
    by (induction acts arbitrary: m0) auto
  then show "a \<notin> aid ` set acts \<Longrightarrow> activityMap acts a = None"
    by (simp add: activityMap_def)
qed

text \<open>
  Claim C9, as the code has it.  \<open>buildSegmentsFromBlocks\<close> never consults the list of
  activities.  A block with \<open>startMin < endMin\<close> whose \<open>activityId\<close> resolves to no known
  activity still gets a segment, carrying the block's id, activity id and layer; the block
  list is only read, and no error is raised.  For such an id \<open>getActivityColor\<close> falls back
  to the colour \<open>#888888\<close>, and the day timeline renders nothing for a segment of that
  activity: the block is invisible because the renderer skips it, not the compositor.
\<close>

theorem unknown_activity_still_composed:
  assumes "b \<in> set bs" and "startMin b < endMin b" and "activityId b \<notin> aid ` set acts"
  shows "(\<exists>s \<in> set (buildSegmentsFromBlocks bs sh).
            blockId s = Some (bid b) \<and> segActivityId s = activityId b \<and> segLayer s = layer b) \<and>
         getActivityColor (activityId b) acts = ''#888888'' \<and>
         (\<forall>seg. tlActivityId seg = activityId b \<longrightarrow>
            renderExecuteSegment (activityMap acts) seg = None \<and>
            renderOverlaySegment (activityMap acts) seg = None)"
proof -
  have "b \<in> set (filter (\<lambda>x. layer x = layer b) bs)"
    using assms(1) by simp
  from processBlocks_member [OF this assms(2), of sh "layer b"]
  have "\<exists>s \<in> set (buildSegmentsFromBlocks bs sh).
            blockId s = Some (bid b) \<and> segActivityId s = activityId b \<and> segLayer s = layer b"
    unfolding buildSegmentsFromBlocks_def
    by (cases "layer b") auto
  moreover have "renderExecuteSegment (activityMap acts) seg = None \<and>
      renderOverlaySegment (activityMap acts) seg = None"
    if "tlActivityId seg = activityId b" for seg
    using that activityMap_unknown [OF assms(3)]
    by (simp add: renderExecuteSegment_def renderOverlaySegment_def)
  ultimately show ?thesis
    using getActivityColor_unknown [OF assms(3)] by simp
qed

theorem unknown_activity_still_composed_witness:
  "blockOf ''X'' ''2024-01-01'' 360 420 ''ghost'' Execute
       \<in> set [blockOf ''X'' ''2024-01-01'' 360 420 ''ghost'' Execute] \<and>
   ''ghost'' \<notin> aid ` set [\<lparr>aid = ''work'', name = ''Work'', color = ''#F2A0B3'', isSystem = None\<rparr>] \<and>
   (\<exists>s \<in> set (buildSegmentsFromBlocks [blockOf ''X'' ''2024-01-01'' 360 420 ''ghost'' Execute] 6).
       blockId s = Some ''X'' \<and> segActivityId s = ''ghost'' \<and> segLayer s = Execute) \<and>
   getActivityColor ''ghost''
     [\<lparr>aid = ''work'', name = ''Work'', color = ''#F2A0B3'', isSystem = None\<rparr>] = ''#888888'' \<and>
   renderExecuteSegment
     (activityMap [\<lparr>aid = ''work'', name = ''Work'', color = ''#F2A0B3'', isSystem = None\<rparr>])
     \<lparr>tlRow = 0, tlStartCol = 0, tlEndCol = 5, tlLayer = GExecute, tlActivityId = ''ghost'',
      tlStartMinute = 0, tlEndMinute = 60\<rparr> = None"
proof -
  have m: "blockOf ''X'' ''2024-01-01'' 360 420 ''ghost'' Execute
       \<in> set [blockOf ''X'' ''2024-01-01'' 360 420 ''ghost'' Execute]" by simp
  have w: "startMin (blockOf ''X'' ''2024-01-01'' 360 420 ''ghost'' Execute)
       < endMin (blockOf ''X'' ''2024-01-01'' 360 420 ''ghost'' Execute)"
    by (simp add: blockOf_def)
  have u: "activityId (blockOf ''X'' ''2024-01-01'' 360 420 ''ghost'' Execute)
       \<notin> aid ` set [\<lparr>aid = ''work'', name = ''Work'', color = ''#F2A0B3'', isSystem = None\<rparr>]"
    by (simp add: blockOf_def)
  show ?thesis
    using unknown_activity_still_composed [OF m w u, of 6] u
    by (simp add: blockOf_def)
qed

text \<open>
  Claim C9 as written says that the compositor produces no segment for such a block.  With
  \<open>work\<close> the only known activity, a block of the unknown activity \<open>ghost\<close> over
  06:00 to 07:00 is composed into the full row.
\<close>

theorem compositor_emits_unknown_activity:
  "buildSegmentsFromBlocks [blockOf ''X'' ''2024-01-01'' 360 420 ''ghost'' Execute] 6 =
     [\<lparr>row = 0, startCol = 0, endCol = 5, segActivityId = ''ghost'', segLayer = Execute,
       blockId = Some ''X''\<rparr>] \<and>
   ''ghost'' \<notin> aid ` set [\<lparr>aid = ''work'', name = ''Work'', color = ''#F2A0B3'', isSystem = None\<rparr>]"
  by (simp add: buildSegmentsFromBlocks_def processBlocks_def blockOf_def rowSegments.simps
      Let_def jsRem_def ceilDiv10_def signed_modulo_int_def)


section \<open>Migration round trip\<close>

text \<open>
  Claim C6.  Migrating a legacy day grid to blocks and projecting the blocks back should
  give every cell the execute and overlay activity it had.  The migration scans the cells
  that exist, in the order of their ids, and extends a run while the next existing cell
  holds the same activity; it does not look at whether that cell is the next one in time.
  A grid with \<open>work\<close> at 06:00 and at 06:20 and no cell at 06:10 migrates to one block over
  \<open>[360, 390)\<close>, and the projection shows \<open>work\<close> at 06:10, where the grid showed nothing.
\<close>

theorem migration_fills_gap:
  "migrateDayGridToBlocks 0
     [(''2024-01-01'',
       [(''2024-01-01|06|0'', emptyCell\<lparr>execute := Val ''work''\<rparr>),
        (''2024-01-01|06|2'', emptyCell\<lparr>execute := Val ''work''\<rparr>)])] =
     Some [(''2024-01-01'',
       [\<lparr>startMin = 360, endMin = 390, layer = Execute,
         bid = ''migrated_exec_2024-01-01_360'', dateISO = ''2024-01-01'',
         activityId = ''work'', title = None, source = Manual, paintStyle = None,
         planRef = None, resistance = None, extension = None, score = None,
         createdAt = 0, updatedAt = 0\<rparr>])] \<and>
   blocksToGrid
     [\<lparr>startMin = 360, endMin = 390, layer = Execute,
       bid = ''migrated_exec_2024-01-01_360'', dateISO = ''2024-01-01'',
       activityId = ''work'', title = None, source = Manual, paintStyle = None,
       planRef = None, resistance = None, extension = None, score = None,
       createdAt = 0, updatedAt = 0\<rparr>] ''2024-01-01'' =
     [(''2024-01-01|06|0'', emptyCell\<lparr>execute := Val ''work''\<rparr>),
      (''2024-01-01|06|1'', emptyCell\<lparr>execute := Val ''work''\<rparr>),
      (''2024-01-01|06|2'', emptyCell\<lparr>execute := Val ''work''\<rparr>)] \<and>
   shownActivity GExecute
     [(''2024-01-01|06|0'', emptyCell\<lparr>execute := Val ''work''\<rparr>),
      (''2024-01-01|06|2'', emptyCell\<lparr>execute := Val ''work''\<rparr>)] ''2024-01-01|06|1'' = None \<and>
   shownActivity GExecute
     [(''2024-01-01|06|0'', emptyCell\<lparr>execute := Val ''work''\<rparr>),
      (''2024-01-01|06|1'', emptyCell\<lparr>execute := Val ''work''\<rparr>),
      (''2024-01-01|06|2'', emptyCell\<lparr>execute := Val ''work''\<rparr>)] ''2024-01-01|06|1''
     = Some ''work''"
  by code_simp

end
